theory Spec2Isabelle
  imports Complex_Main
begin

section \<open>JavaScript values used by the analysis wizard\<close>

text \<open>
  The wizard page (\<^verbatim>\<open>AnalysisPage\<close>) is written in JavaScript. Its logic relies on
  truthiness, on \<^verbatim>\<open>||\<close>, \<^verbatim>\<open>&&\<close> and \<^verbatim>\<open>??\<close>, and on numbers that may be
  \<^verbatim>\<open>NaN\<close>. A number is \<^verbatim>\<open>NaN\<close>, an infinity, or a finite value; the finite
  doubles are a subset of the reals, comparison of doubles is comparison of the reals they
  denote, and \<^verbatim>\<open>-0\<close> is not distinguished from \<^verbatim>\<open>0\<close> (the page never does).
\<close>

datatype jsnum = NaN | NegInf | Fin real | PosInf

datatype jsval =
    JUndefined
  | JNull
  | JBool bool
  | JNum jsnum
  | JStr string
  | JArr "jsval list"
  | JObj "(string \<times> jsval) list"

text \<open>Truthiness of a number: \<^verbatim>\<open>NaN\<close> and \<^verbatim>\<open>0\<close> are falsy.\<close>

fun numTruthy :: "jsnum \<Rightarrow> bool" where
  "numTruthy NaN = False"
| "numTruthy (Fin x) = (x \<noteq> 0)"
| "numTruthy NegInf = True"
| "numTruthy PosInf = True"

fun truthy :: "jsval \<Rightarrow> bool" where
  "truthy JUndefined = False"
| "truthy JNull = False"
| "truthy (JBool b) = b"
| "truthy (JNum x) = numTruthy x"
| "truthy (JStr s) = (s \<noteq> [])"
| "truthy (JArr xs) = True"
| "truthy (JObj kvs) = True"

text \<open>\<^verbatim>\<open>a >= b\<close> and \<^verbatim>\<open>a < b\<close> on numbers; every comparison with \<^verbatim>\<open>NaN\<close> is false.\<close>

fun numGe :: "jsnum \<Rightarrow> jsnum \<Rightarrow> bool" where
  "numGe NaN b = False"
| "numGe a NaN = False"
| "numGe PosInf b = True"
| "numGe a NegInf = True"
| "numGe NegInf b = False"
| "numGe a PosInf = False"
| "numGe (Fin a) (Fin b) = (b \<le> a)"

fun numLt :: "jsnum \<Rightarrow> jsnum \<Rightarrow> bool" where
  "numLt NaN b = False"
| "numLt a NaN = False"
| "numLt PosInf b = False"
| "numLt a NegInf = False"
| "numLt NegInf b = True"
| "numLt a PosInf = True"
| "numLt (Fin a) (Fin b) = (a < b)"

text \<open>
  Property read \<^verbatim>\<open>v.k\<close> on a value other than \<^verbatim>\<open>null\<close> and \<^verbatim>\<open>undefined\<close>, for the
  property names the page reads (\<^verbatim>\<open>timestamp\<close>, \<^verbatim>\<open>time\<close>, \<^verbatim>\<open>created_at\<close>,
  \<^verbatim>\<open>createdAt\<close>, \<^verbatim>\<open>status\<close>, \<^verbatim>\<open>status_code\<close>): an object parsed from JSON yields its
  own property or \<^verbatim>\<open>undefined\<close>; numbers, strings, booleans and arrays have no property
  of these names. Reading a property of \<^verbatim>\<open>null\<close> throws a \<^verbatim>\<open>TypeError\<close>; the callers
  below test for that case before they use \<open>getProp\<close>.
\<close>

fun getProp :: "jsval \<Rightarrow> string \<Rightarrow> jsval" where
  "getProp (JObj kvs) k = (case map_of kvs k of None \<Rightarrow> JUndefined | Some v \<Rightarrow> v)"
| "getProp v k = JUndefined"

definition jsOr :: "jsval \<Rightarrow> jsval \<Rightarrow> jsval" where
  "jsOr a b = (if truthy a then a else b)"

definition nullish :: "jsval \<Rightarrow> bool" where
  "nullish v = (v = JNull \<or> v = JUndefined)"

definition jsCoalesce :: "jsval \<Rightarrow> jsval \<Rightarrow> jsval" where
  "jsCoalesce a b = (if nullish a then b else a)"

text \<open>
  The built-ins of the JavaScript engine that the page calls on values it does not control
  are parameters of the model: \<^verbatim>\<open>Date.parse\<close> on any value, the conversion of a string
  and of an array or object to a number, and the \<^verbatim>\<open>TypeError\<close> the engine raises when a
  property of \<^verbatim>\<open>null\<close> is read.
\<close>

datatype jserror = JsError (errName: string) (errMessage: string)

record host =
  dateParse :: "jsval \<Rightarrow> jsnum"
  stringToNumber :: "string \<Rightarrow> jsnum"
  objectToNumber :: "jsval \<Rightarrow> jsnum"
  nullPropError :: jserror

text \<open>\<^verbatim>\<open>Number(v)\<close>.\<close>

fun toNumber :: "host \<Rightarrow> jsval \<Rightarrow> jsnum" where
  "toNumber h JUndefined = NaN"
| "toNumber h JNull = Fin 0"
| "toNumber h (JBool b) = Fin (if b then 1 else 0)"
| "toNumber h (JNum x) = x"
| "toNumber h (JStr s) = stringToNumber h s"
| "toNumber h (JArr xs) = objectToNumber h (JArr xs)"
| "toNumber h (JObj kvs) = objectToNumber h (JObj kvs)"

text \<open>
  \<^verbatim>\<open>err.message || err\<close> inside a template literal: the message of the error, or the
  string form of the error when the message is empty (which for an error with an empty
  message is its name).
\<close>

definition errText :: "jserror \<Rightarrow> string" where
  "errText e = (if errMessage e \<noteq> [] then errMessage e else errName e)"

text \<open>\<^verbatim>\<open>new Error(msg)\<close>.\<close>

definition newError :: "string \<Rightarrow> jserror" where
  "newError msg = JsError ''Error'' msg"

text \<open>The decimal form of a status code inside a template literal.\<close>

definition digitChar :: "nat \<Rightarrow> char" where
  "digitChar d = ''0123456789'' ! d"

fun showNat :: "nat \<Rightarrow> string" where
  "showNat n = (if n < 10 then [digitChar n] else showNat (n div 10) @ [digitChar (n mod 10)])"

declare showNat.simps [simp del]

section \<open>The timestamp filter\<close>

text \<open>
  Both \<^verbatim>\<open>singleIteration\<close> and the delayed prediction fetch filter the records of a
  response with the same callback:
  \<^verbatim>\<open>
  (e) => {
    if (!startTs) return true;
    const ts = e.timestamp || e.time || e.created_at || e.createdAt || null;
    if (!ts) return true;
    const parsed = Date.parse(ts) || Number(ts) || null;
    return parsed && parsed >= startTs;
  }\<close>
  where \<^verbatim>\<open>startTs\<close> is \<^verbatim>\<open>collectionStartTs\<close> of the enclosing render in
  \<^verbatim>\<open>singleIteration\<close>, and the local constant \<^verbatim>\<open>startTs\<close> in
  \<^verbatim>\<open>requestPredictionMode\<close>.
\<close>

text \<open>The aliased timestamp of a record; \<open>None\<close> is the \<^verbatim>\<open>TypeError\<close> on \<^verbatim>\<open>null\<close>.\<close>

definition recordTs :: "jsval \<Rightarrow> jsval option" where
  "recordTs e =
     (if nullish e then None
      else Some (jsOr (getProp e ''timestamp'')
                (jsOr (getProp e ''time'')
                (jsOr (getProp e ''created_at'')
                (jsOr (getProp e ''createdAt'') JNull)))))"

text \<open>\<^verbatim>\<open>Date.parse(ts) || Number(ts) || null\<close>; \<open>None\<close> is \<^verbatim>\<open>null\<close>.\<close>

definition parseTs :: "host \<Rightarrow> jsval \<Rightarrow> jsnum option" where
  "parseTs h ts =
     (if numTruthy (dateParse h ts) then Some (dateParse h ts)
      else if numTruthy (toNumber h ts) then Some (toNumber h ts)
      else None)"

text \<open>
  The callback. \<open>None\<close>: it throws; \<open>Some b\<close>: it returns a value whose truthiness is
  \<open>b\<close>.
\<close>

definition keepRecord :: "host \<Rightarrow> jsnum option \<Rightarrow> jsval \<Rightarrow> bool option" where
  "keepRecord h startTs e =
     (case startTs of
        None \<Rightarrow> Some True
      | Some t \<Rightarrow>
          if \<not> numTruthy t then Some True
          else (case recordTs e of
                  None \<Rightarrow> None
                | Some ts \<Rightarrow>
                    if \<not> truthy ts then Some True
                    else (case parseTs h ts of
                            None \<Rightarrow> Some False
                          | Some parsed \<Rightarrow> Some (numGe parsed t))))"

text \<open>\<^verbatim>\<open>arr.filter(callback)\<close> with a callback that may throw: the first throw aborts.\<close>

fun filterRecords :: "('a \<Rightarrow> bool option) \<Rightarrow> 'a list \<Rightarrow> 'a list option" where
  "filterRecords p [] = Some []"
| "filterRecords p (x # xs) =
     (case p x of
        None \<Rightarrow> None
      | Some b \<Rightarrow>
          (case filterRecords p xs of
             None \<Rightarrow> None
           | Some ys \<Rightarrow> Some (if b then x # ys else ys)))"

text \<open>\<^verbatim>\<open>Array.isArray(v) ? v : [v]\<close>.\<close>

fun asArray :: "jsval \<Rightarrow> jsval list" where
  "asArray (JArr xs) = xs"
| "asArray v = [v]"

section \<open>HTTP responses, effects and the state of the page\<close>

text \<open>
  A response as the page reads it: the status code, the outcome of \<^verbatim>\<open>res.text()\<close> and
  the outcome of \<^verbatim>\<open>res.json()\<close> (\<open>Inl\<close>: the promise rejects). The outcome of
  \<^verbatim>\<open>fetch\<close> is a rejection (a transport error) or a response.
\<close>

record response =
  status :: nat
  bodyText :: "jserror + string"
  bodyJson :: "jserror + jsval"

type_synonym fetchOutcome = "jserror + response"

text \<open>\<^verbatim>\<open>res.ok\<close>: the status is in the range 200 to 299.\<close>

definition ok :: "response \<Rightarrow> bool" where
  "ok res = (200 \<le> status res \<and> status res \<le> 299)"

text \<open>\<^verbatim>\<open>await res.text().catch(() => "")\<close>.\<close>

definition textOrEmpty :: "response \<Rightarrow> string" where
  "textOrEmpty res = (case bodyText res of Inl err \<Rightarrow> [] | Inr t \<Rightarrow> t)"

text \<open>
  The five endpoints of the backend. Every request of the page goes to
  \<^verbatim>\<open>${BASE_URL}\<close> followed by the path of an endpoint and \<^verbatim>\<open>factoryMedicineId\<close>
  (\<^verbatim>\<open>startModelTraining\<close> writes the same origin as a literal).
\<close>

datatype endpoint = Shell | Picron | Getdata | Train | Predict

definition baseUrl :: string where
  "baseUrl = ''https://photontroppers.onrender.com''"

fun path :: "endpoint \<Rightarrow> string" where
  "path Shell = ''/shell/''"
| "path Picron = ''/picron/''"
| "path Getdata = ''/getdata/''"
| "path Train = ''/train/''"
| "path Predict = ''/predict/''"

definition url :: "endpoint \<Rightarrow> string \<Rightarrow> string" where
  "url ep fid = baseUrl @ path ep @ fid"

text \<open>
  What the page does to the outside, in the order it does it. \<open>Fetch m ep fid body\<close> is
  \<^verbatim>\<open>fetch(url, {method: m, body})\<close> with the URL \<open>url ep fid\<close>.
\<close>

datatype effect =
    Alert string
  | Fetch string endpoint string "jsval option"
  | SetInterval nat nat
  | ClearInterval nat
  | SetTimeout nat
  | ConsoleError jserror
  | ConsoleWarn string jserror

text \<open>
  An asynchronous function of the page runs up to an \<^verbatim>\<open>await fetch(...)\<close>, and its
  rest runs when the request completes. A \<open>task\<close> is such a suspended rest, with the
  variables of the enclosing render that it still reads: a handler is a closure over the
  state variables of the render in which it was created, so what it reads after the
  \<^verbatim>\<open>await\<close> are the values at the time of the call, not the values set since.
  (\<^verbatim>\<open>pollingRef\<close> is a ref: it is read and written through \<^verbatim>\<open>.current\<close> and is
  always the live value.)
\<close>

text \<open>
  \<open>AwaitShell\<close>: \<^verbatim>\<open>fetchShellScript\<close> awaiting \<^verbatim>\<open>GET /shell\<close>.
  \<open>AwaitSubmit fid ts\<close>: \<^verbatim>\<open>submitCollection\<close> awaiting its POST; its rest calls
  \<^verbatim>\<open>pollForDataAndStatus\<close> of the same render, which reads \<^verbatim>\<open>factoryMedicineId\<close>
  (\<open>fid\<close>) and \<^verbatim>\<open>collectionStartTs\<close> (\<open>ts\<close>) of that render.
  \<open>AwaitGetdata fid ts\<close> and \<open>AwaitStatus\<close>: \<^verbatim>\<open>singleIteration\<close> awaiting
  \<^verbatim>\<open>GET /getdata\<close>, then \<^verbatim>\<open>GET /picron\<close>.
  \<open>AwaitTrain\<close>: \<^verbatim>\<open>startModelTraining\<close> awaiting its POST.
  \<open>AwaitPredictPost fid startTs\<close>: \<^verbatim>\<open>requestPredictionMode\<close> awaiting its POST, with
  its local constant \<^verbatim>\<open>startTs\<close>; \<open>AwaitPredictGet startTs\<close>: the callback of its
  timer awaiting \<^verbatim>\<open>GET /predict\<close>.
\<close>

datatype task =
    AwaitShell
  | AwaitSubmit string "jsnum option"
  | AwaitGetdata string "jsnum option"
  | AwaitStatus
  | AwaitTrain
  | AwaitPredictPost string jsnum
  | AwaitPredictGet jsnum

datatype lifecycle = Fresh | Mounted | Unmounted

text \<open>
  The state variables of \<^verbatim>\<open>AnalysisPage\<close> and its ref, followed by the part of the
  browser the page acts on: the interval timers and the one-shot timers that are set (an
  interval timer with its handle and the \<^verbatim>\<open>factoryMedicineId\<close> and
  \<^verbatim>\<open>collectionStartTs\<close> its callback closes over; a one-shot timer with the time it is
  due and the \<^verbatim>\<open>factoryMedicineId\<close> and \<^verbatim>\<open>startTs\<close> of its callback), the
  requests in flight, the clock in milliseconds (\<^verbatim>\<open>Date.now()\<close>), the next timer
  handle (handles are positive integers) and the effects so far.
\<close>

record world =
  factoryName :: string
  medicineName :: string
  factoryMedicineId :: string
  scriptText :: string
  isFetchingScript :: bool
  collectionForm :: "(string \<times> jsnum) list"
  isSubmittingCollection :: bool
  collectionStartTs :: "jsnum option"
  collectedEntries :: "jsval list"
  pollingRef :: "nat option"
  csvFile :: "string option"
  isTraining :: bool
  trainMessage :: string
  isRequestingPrediction :: bool
  predictionStartTs :: "jsnum option"
  predictions :: "jsval list"
  predictionMessage :: string
  lifecycle :: lifecycle
  intervals :: "(nat \<times> string \<times> jsnum option) list"
  timeouts :: "(nat \<times> string \<times> jsnum) list"
  inflight :: "task list"
  clock :: nat
  nextHandle :: nat
  trace :: "effect list"

definition initialWorld :: "nat \<Rightarrow> world" where
  "initialWorld c =
     \<lparr> factoryName = [], medicineName = [], factoryMedicineId = [],
       scriptText = [], isFetchingScript = False,
       collectionForm =
         [(''taste_sweet'', Fin 0), (''taste_salty'', Fin 0), (''taste_bitter'', Fin 0),
          (''taste_sour'', Fin 0), (''taste_umami'', Fin 0), (''quality'', Fin 0),
          (''dilution'', Fin 0)],
       isSubmittingCollection = False, collectionStartTs = None, collectedEntries = [],
       pollingRef = None, csvFile = None, isTraining = False, trainMessage = [],
       isRequestingPrediction = False, predictionStartTs = None, predictions = [],
       predictionMessage = [],
       lifecycle = Fresh, intervals = [], timeouts = [], inflight = [], clock = c,
       nextHandle = 1, trace = [] \<rparr>"

definition emit :: "effect list \<Rightarrow> world \<Rightarrow> world" where
  "emit es w = w\<lparr>trace := trace w @ es\<rparr>"

definition dateNow :: "world \<Rightarrow> jsnum" where
  "dateNow w = Fin (real (clock w))"

definition setNamesAlert :: string where
  "setNamesAlert = ''Please set factory and medicine name on Home page first.''"

section \<open>Session identity\<close>

text \<open>
  The mount effect reads the two names from \<^verbatim>\<open>localStorage\<close>
  (\<^verbatim>\<open>getItem(k) || ""\<close>), stores them, and sets the identifier when both are non-empty.
  The second effect depends on \<^verbatim>\<open>[factoryName, medicineName]\<close> and runs after every
  render in which one of them changed. No other code of the page calls
  \<^verbatim>\<open>setFactoryName\<close>, \<^verbatim>\<open>setMedicineName\<close> or \<^verbatim>\<open>setFactoryMedicineId\<close>.
\<close>

definition orEmpty :: "string option \<Rightarrow> string" where
  "orEmpty v = (case v of None \<Rightarrow> [] | Some s \<Rightarrow> s)"

definition mountEffect :: "string option \<Rightarrow> string option \<Rightarrow> world \<Rightarrow> world" where
  "mountEffect fs ms w =
     (let f = orEmpty fs; m = orEmpty ms;
          w1 = w\<lparr>factoryName := f, medicineName := m\<rparr>
      in if f \<noteq> [] \<and> m \<noteq> [] then w1\<lparr>factoryMedicineId := f @ ''_'' @ m\<rparr> else w1)"

definition syncIdEffect :: "world \<Rightarrow> world" where
  "syncIdEffect w =
     (if factoryName w \<noteq> [] \<and> medicineName w \<noteq> []
      then w\<lparr>factoryMedicineId := factoryName w @ ''_'' @ medicineName w\<rparr>
      else w)"

text \<open>
  Mounting: the mount effect, then the second effect on the names it has set (its first
  run, on the empty names of the first render, changes nothing).
\<close>

definition mount :: "string option \<Rightarrow> string option \<Rightarrow> world \<Rightarrow> world" where
  "mount fs ms w = (syncIdEffect (mountEffect fs ms w))\<lparr>lifecycle := Mounted\<rparr>"

section \<open>Init-script retrieval\<close>

definition fetchShellScript :: "world \<Rightarrow> world" where
  "fetchShellScript w =
     (if factoryMedicineId w = [] then emit [Alert setNamesAlert] w
      else (emit [Fetch ''GET'' Shell (factoryMedicineId w) None] w)
             \<lparr>isFetchingScript := True, scriptText := [],
              inflight := inflight w @ [AwaitShell]\<rparr>)"

definition fetchShellScript_catch :: "jserror \<Rightarrow> world \<Rightarrow> world" where
  "fetchShellScript_catch err w =
     (emit [ConsoleError err] w)
       \<lparr>scriptText := ''# Error fetching script: '' @ errText err,
        isFetchingScript := False\<rparr>"

definition fetchShellScript_resume :: "fetchOutcome \<Rightarrow> world \<Rightarrow> world" where
  "fetchShellScript_resume out w =
     (case out of
        Inl err \<Rightarrow> fetchShellScript_catch err w
      | Inr res \<Rightarrow>
          if \<not> ok res
          then fetchShellScript_catch
                 (newError (''Failed to fetch script ('' @ showNat (status res) @ ''): ''
                            @ textOrEmpty res)) w
          else (case bodyText res of
                  Inl err \<Rightarrow> fetchShellScript_catch err w
                | Inr txt \<Rightarrow>
                    w\<lparr>scriptText := (if txt \<noteq> [] then txt else ''# (empty script returned)''),
                      isFetchingScript := False\<rparr>))"

section \<open>Data collection\<close>

text \<open>
  \<^verbatim>\<open>{ ...s, [name]: v }\<close>: the property is replaced where it stands, or added at the
  end. (JavaScript lists a new key that is an array index before the others; the names of
  the form are not array indices, and nothing below depends on the order of the keys.)
\<close>

fun objSet :: "'k \<Rightarrow> 'v \<Rightarrow> ('k \<times> 'v) list \<Rightarrow> ('k \<times> 'v) list" where
  "objSet k v [] = [(k, v)]"
| "objSet k v (p # ps) = (if fst p = k then (k, v) # ps else p # objSet k v ps)"

text \<open>
  \<^verbatim>\<open>handleCollectionChange\<close>, on a change event with target name \<open>name\<close> and
  target value \<open>val\<close> (the value of an input element is a string).
\<close>

definition handleCollectionChange :: "host \<Rightarrow> string \<Rightarrow> string \<Rightarrow> world \<Rightarrow> world" where
  "handleCollectionChange h name val w =
     w\<lparr>collectionForm := objSet name (toNumber h (JStr val)) (collectionForm w)\<rparr>"

text \<open>
  The body of the POST is \<^verbatim>\<open>JSON.stringify(payload)\<close>; the model keeps the JSON value
  that this text denotes. \<^verbatim>\<open>JSON.stringify\<close> writes \<^verbatim>\<open>NaN\<close> and the infinities as
  \<^verbatim>\<open>null\<close>.
\<close>

fun jsonNum :: "jsnum \<Rightarrow> jsval" where
  "jsonNum (Fin x) = JNum (Fin x)"
| "jsonNum x = JNull"

definition collectionPayload :: "world \<Rightarrow> (string \<times> jsval) list" where
  "collectionPayload w =
     objSet ''factory'' (JStr (factoryName w))
       (objSet ''status'' (JNum (Fin 1))
          (map (\<lambda>(k, v). (k, jsonNum v)) (collectionForm w)))"

text \<open>
  \<^verbatim>\<open>submitCollection\<close> up to its \<^verbatim>\<open>await fetch\<close>. The call
  \<^verbatim>\<open>setCollectionForm((s) => ({ ...s }))\<close> stores a copy of the form and changes
  nothing. The task that is left in flight carries \<^verbatim>\<open>collectionStartTs\<close> as the
  handler reads it, which is the value before \<^verbatim>\<open>setCollectionStartTs(Date.now())\<close>.
\<close>

definition submitCollection :: "world \<Rightarrow> world" where
  "submitCollection w =
     (if factoryMedicineId w = [] then emit [Alert setNamesAlert] w
      else (emit [Fetch ''POST'' Picron (factoryMedicineId w)
                    (Some (JObj (collectionPayload w)))] w)
             \<lparr>isSubmittingCollection := True, collectedEntries := [],
              collectionStartTs := Some (dateNow w),
              inflight := inflight w @ [AwaitSubmit (factoryMedicineId w) (collectionStartTs w)]\<rparr>)"

text \<open>
  \<^verbatim>\<open>if (pollingRef.current) { clearInterval(pollingRef.current); pollingRef.current = null; }\<close>,
  which occurs in \<^verbatim>\<open>pollForDataAndStatus\<close>, in \<^verbatim>\<open>singleIteration\<close> and in the
  cleanup of the last effect.
\<close>

definition clearPolling :: "world \<Rightarrow> world" where
  "clearPolling w =
     (case pollingRef w of
        None \<Rightarrow> w
      | Some tm \<Rightarrow>
          if tm = 0 then w
          else (emit [ClearInterval tm] w)
                 \<lparr>intervals := filter (\<lambda>p. fst p \<noteq> tm) (intervals w), pollingRef := None\<rparr>)"

text \<open>\<^verbatim>\<open>singleIteration\<close> up to its first \<^verbatim>\<open>await\<close>.\<close>

definition singleIteration :: "string \<Rightarrow> jsnum option \<Rightarrow> world \<Rightarrow> world" where
  "singleIteration fid ts w =
     (emit [Fetch ''GET'' Getdata fid None] w)
       \<lparr>inflight := inflight w @ [AwaitGetdata fid ts]\<rparr>"

text \<open>
  \<^verbatim>\<open>pollForDataAndStatus\<close>; \<open>fid\<close> and \<open>ts\<close> are \<^verbatim>\<open>factoryMedicineId\<close> and
  \<^verbatim>\<open>collectionStartTs\<close> of the render whose \<^verbatim>\<open>submitCollection\<close> calls it. The
  call \<^verbatim>\<open>singleIteration()\<close> returns at its first \<^verbatim>\<open>await\<close>, so the interval is set
  before any response is handled.
\<close>

definition pollForDataAndStatus :: "string \<Rightarrow> jsnum option \<Rightarrow> world \<Rightarrow> world" where
  "pollForDataAndStatus fid ts w =
     (let w1 = clearPolling w;
          w2 = singleIteration fid ts w1;
          tm = nextHandle w2
      in (emit [SetInterval tm (15 * 1000)] w2)
           \<lparr>pollingRef := Some tm, intervals := intervals w2 @ [(tm, fid, ts)],
            nextHandle := Suc tm\<rparr>)"

definition submitCollection_catch :: "jserror \<Rightarrow> world \<Rightarrow> world" where
  "submitCollection_catch err w =
     (emit [ConsoleError err,
            Alert ''Error submitting data collection. See console for details.''] w)
       \<lparr>isSubmittingCollection := False\<rparr>"

definition submitCollection_resume ::
  "string \<Rightarrow> jsnum option \<Rightarrow> fetchOutcome \<Rightarrow> world \<Rightarrow> world" where
  "submitCollection_resume fid ts out w =
     (case out of
        Inl err \<Rightarrow> submitCollection_catch err w
      | Inr res \<Rightarrow>
          if \<not> ok res
          then submitCollection_catch
                 (newError (''Failed to submit: '' @ showNat (status res) @ '' ''
                            @ textOrEmpty res)) w
          else (pollForDataAndStatus fid ts w)\<lparr>isSubmittingCollection := False\<rparr>)"

text \<open>The rest of \<^verbatim>\<open>singleIteration\<close> once \<^verbatim>\<open>GET /getdata\<close> has completed.\<close>

definition singleIteration_getdata ::
  "host \<Rightarrow> string \<Rightarrow> jsnum option \<Rightarrow> fetchOutcome \<Rightarrow> world \<Rightarrow> world" where
  "singleIteration_getdata h fid ts out w =
     (let w1 =
        (case out of
           Inl err \<Rightarrow> emit [ConsoleWarn ''getdata fetch failed'' err] w
         | Inr res \<Rightarrow>
             if \<not> ok res then w
             else (case bodyJson res of
                     Inl err \<Rightarrow> emit [ConsoleWarn ''getdata fetch failed'' err] w
                   | Inr gd \<Rightarrow>
                       (case filterRecords (keepRecord h ts) (asArray gd) of
                          None \<Rightarrow>
                            emit [ConsoleWarn ''getdata fetch failed'' (nullPropError h)] w
                        | Some filtered \<Rightarrow>
                            if filtered \<noteq> []
                            then w\<lparr>collectedEntries := collectedEntries w @ filtered\<rparr>
                            else w)))
      in (emit [Fetch ''GET'' Picron fid None] w1)
           \<lparr>inflight := inflight w1 @ [AwaitStatus]\<rparr>)"

text \<open>
  \<^verbatim>\<open>pdata && (pdata.status ?? pdata.status_code ?? null)\<close> and the test
  \<^verbatim>\<open>status !== null && Number(status) === 0\<close>.
\<close>

definition statusOf :: "jsval \<Rightarrow> jsval" where
  "statusOf pdata =
     (if truthy pdata
      then jsCoalesce (getProp pdata ''status'')
             (jsCoalesce (getProp pdata ''status_code'') JNull)
      else pdata)"

definition statusDone :: "host \<Rightarrow> jsval \<Rightarrow> bool" where
  "statusDone h pdata = (statusOf pdata \<noteq> JNull \<and> toNumber h (statusOf pdata) = Fin 0)"

text \<open>The rest of \<^verbatim>\<open>singleIteration\<close> once \<^verbatim>\<open>GET /picron\<close> has completed.\<close>

definition singleIteration_status :: "host \<Rightarrow> fetchOutcome \<Rightarrow> world \<Rightarrow> world" where
  "singleIteration_status h out w =
     (case out of
        Inl err \<Rightarrow> emit [ConsoleWarn ''picron status fetch failed'' err] w
      | Inr res \<Rightarrow>
          if \<not> ok res then w
          else (case bodyJson res of
                  Inl err \<Rightarrow> emit [ConsoleWarn ''picron status fetch failed'' err] w
                | Inr pdata \<Rightarrow> if statusDone h pdata then clearPolling w else w))"

text \<open>The cleanup of the effect at the end of the component: the view is torn down.\<close>

definition unmount :: "world \<Rightarrow> world" where
  "unmount w = (clearPolling w)\<lparr>lifecycle := Unmounted\<rparr>"

section \<open>Training trigger\<close>

text \<open>
  \<^verbatim>\<open>handleCsvSelect\<close> stores \<^verbatim>\<open>e.target.files[0]\<close>, which is \<^verbatim>\<open>undefined\<close> when
  the selection is empty; a file is represented by its name.
\<close>

definition handleCsvSelect :: "string option \<Rightarrow> world \<Rightarrow> world" where
  "handleCsvSelect f w = w\<lparr>csvFile := f\<rparr>"

text \<open>
  \<^verbatim>\<open>startModelTraining\<close>. The constant \<^verbatim>\<open>trainUrl\<close> that it builds is not used; the
  request goes to the literal URL followed by \<^verbatim>\<open>factoryMedicineId\<close>, with no body.
\<close>

definition startModelTraining :: "world \<Rightarrow> world" where
  "startModelTraining w =
     (if factoryName w = [] \<and> factoryMedicineId w = []
      then emit [Alert ''Factory/medicine not set. Please set them on Home page.''] w
      else if csvFile w = None
      then emit [Alert ''Please upload a CSV file first.''] w
      else (emit [Fetch ''POST'' Train (factoryMedicineId w) None] w)
             \<lparr>isTraining := True, trainMessage := [],
              inflight := inflight w @ [AwaitTrain]\<rparr>)"

definition startModelTraining_catch :: "jserror \<Rightarrow> world \<Rightarrow> world" where
  "startModelTraining_catch err w =
     (emit [ConsoleError err] w)
       \<lparr>trainMessage := ''Error starting training: '' @ errText err, isTraining := False\<rparr>"

text \<open>\<^verbatim>\<open>res.json().catch(() => null)\<close> cannot fail and its result is not used.\<close>

definition startModelTraining_resume :: "fetchOutcome \<Rightarrow> world \<Rightarrow> world" where
  "startModelTraining_resume out w =
     (case out of
        Inl err \<Rightarrow> startModelTraining_catch err w
      | Inr res \<Rightarrow>
          if \<not> ok res
          then startModelTraining_catch
                 (newError (''Training request failed: '' @ showNat (status res) @ '' ''
                            @ textOrEmpty res)) w
          else w\<lparr>trainMessage := ''Model training started successfully.'',
                 isTraining := False\<rparr>)"

section \<open>Prediction\<close>

definition predictionPayload :: "world \<Rightarrow> (string \<times> jsval) list" where
  "predictionPayload w =
     [(''taste_sweet'', JNum (Fin 0)), (''taste_salty'', JNum (Fin 0)),
      (''taste_bitter'', JNum (Fin 0)), (''taste_sour'', JNum (Fin 0)),
      (''taste_umami'', JNum (Fin 0)), (''quality'', JNum (Fin 0)),
      (''dilution'', JNum (Fin 0)), (''status'', JNum (Fin 2)),
      (''factory'', JStr (factoryName w))]"

definition requestPredictionMode :: "world \<Rightarrow> world" where
  "requestPredictionMode w =
     (if factoryMedicineId w = [] then emit [Alert setNamesAlert] w
      else (emit [Fetch ''POST'' Picron (factoryMedicineId w)
                    (Some (JObj (predictionPayload w)))] w)
             \<lparr>isRequestingPrediction := True, predictions := [], predictionMessage := [],
              predictionStartTs := Some (dateNow w),
              inflight := inflight w @ [AwaitPredictPost (factoryMedicineId w) (dateNow w)]\<rparr>)"

definition requestPredictionMode_catch :: "jserror \<Rightarrow> world \<Rightarrow> world" where
  "requestPredictionMode_catch err w =
     (emit [ConsoleError err] w)
       \<lparr>predictionMessage := ''Error requesting prediction mode: '' @ errText err,
        isRequestingPrediction := False\<rparr>"

text \<open>
  After the POST: on success \<^verbatim>\<open>setTimeout(callback, 15 * 1000)\<close>; the browser runs the
  callback once, not before the delay has passed.
\<close>

definition requestPredictionMode_resume ::
  "string \<Rightarrow> jsnum \<Rightarrow> fetchOutcome \<Rightarrow> world \<Rightarrow> world" where
  "requestPredictionMode_resume fid startTs out w =
     (case out of
        Inl err \<Rightarrow> requestPredictionMode_catch err w
      | Inr res \<Rightarrow>
          if \<not> ok res
          then requestPredictionMode_catch
                 (newError (''Failed to request prediction mode: '' @ showNat (status res)
                            @ '' '' @ textOrEmpty res)) w
          else (emit [SetTimeout (15 * 1000)] w)
                 \<lparr>timeouts := timeouts w @ [(clock w + 15 * 1000, fid, startTs)]\<rparr>)"

text \<open>The callback of the timer, up to its \<^verbatim>\<open>await fetch\<close>, and its rest.\<close>

definition predictionTimeout :: "string \<Rightarrow> jsnum \<Rightarrow> world \<Rightarrow> world" where
  "predictionTimeout fid startTs w =
     (emit [Fetch ''GET'' Predict fid None] w)
       \<lparr>inflight := inflight w @ [AwaitPredictGet startTs]\<rparr>"

definition predictionTimeout_catch :: "jserror \<Rightarrow> world \<Rightarrow> world" where
  "predictionTimeout_catch err w =
     (emit [ConsoleError err] w)
       \<lparr>predictionMessage := ''Error fetching prediction: '' @ errText err,
        isRequestingPrediction := False\<rparr>"

definition predictionTimeout_resume :: "host \<Rightarrow> jsnum \<Rightarrow> fetchOutcome \<Rightarrow> world \<Rightarrow> world" where
  "predictionTimeout_resume h startTs out w =
     (case out of
        Inl err \<Rightarrow> predictionTimeout_catch err w
      | Inr res \<Rightarrow>
          if \<not> ok res
          then predictionTimeout_catch
                 (newError (''Failed to fetch prediction: '' @ showNat (status res) @ '' ''
                            @ textOrEmpty res)) w
          else (case bodyJson res of
                  Inl err \<Rightarrow> predictionTimeout_catch err w
                | Inr pred \<Rightarrow>
                    (case filterRecords (keepRecord h (Some startTs)) (asArray pred) of
                       None \<Rightarrow> predictionTimeout_catch (nullPropError h) w
                     | Some filtered \<Rightarrow>
                         w\<lparr>predictions := filtered,
                           predictionMessage := ''Prediction fetched.'',
                           isRequestingPrediction := False\<rparr>)))"

section \<open>The page as a transition system\<close>

text \<open>
  JavaScript runs one piece of code to completion at a time. The pieces are: the effects
  at mount, the synchronous part of a handler the user triggers, the rest of an
  asynchronous function when the request it awaits completes (requests complete in any
  order, with any outcome), the callback of a timer, and the cleanup at teardown. Time
  passes between them. Nothing runs before the mount effects; after teardown only
  requests and timers that are still pending can run code of the page. (React ignores the
  state a torn-down component sets; the model keeps it, and no request, timer or
  \<^verbatim>\<open>pollingRef\<close> of the page depends on it.)
\<close>

text \<open>
  The events: the mount with the two values of \<^verbatim>\<open>localStorage\<close>; the clicks and
  inputs of the user; the completion of the \<open>k\<close>-th request in flight with an outcome;
  the firing of the interval timer with a given handle, and of the \<open>k\<close>-th one-shot
  timer; the passing of time; the teardown. (\<^verbatim>\<open>downloadScript\<close> and the copy button
  issue no request, set no timer and change no state; they are left out.)
\<close>

datatype event =
    Mount "string option" "string option"
  | ClickFetchScript
  | Change string string
  | ClickSubmit
  | SelectCsv "string option"
  | ClickTrain
  | ClickPredict
  | Respond nat fetchOutcome
  | IntervalFire nat
  | TimeoutFire nat
  | Advance nat
  | Unmount

definition dropNth :: "nat \<Rightarrow> 'a list \<Rightarrow> 'a list" where
  "dropNth k xs = take k xs @ drop (Suc k) xs"

fun resume :: "host \<Rightarrow> task \<Rightarrow> fetchOutcome \<Rightarrow> world \<Rightarrow> world" where
  "resume h AwaitShell out w = fetchShellScript_resume out w"
| "resume h (AwaitSubmit fid ts) out w = submitCollection_resume fid ts out w"
| "resume h (AwaitGetdata fid ts) out w = singleIteration_getdata h fid ts out w"
| "resume h AwaitStatus out w = singleIteration_status h out w"
| "resume h AwaitTrain out w = startModelTraining_resume out w"
| "resume h (AwaitPredictPost fid startTs) out w = requestPredictionMode_resume fid startTs out w"
| "resume h (AwaitPredictGet startTs) out w = predictionTimeout_resume h startTs out w"

fun step :: "host \<Rightarrow> world \<Rightarrow> event \<Rightarrow> world option" where
  "step h w (Mount fs ms) = (if lifecycle w = Fresh then Some (mount fs ms w) else None)"
| "step h w ClickFetchScript =
     (if lifecycle w = Mounted then Some (fetchShellScript w) else None)"
| "step h w (Change name val) =
     (if lifecycle w = Mounted then Some (handleCollectionChange h name val w) else None)"
| "step h w ClickSubmit =
     (if lifecycle w = Mounted then Some (submitCollection w) else None)"
| "step h w (SelectCsv f) =
     (if lifecycle w = Mounted then Some (handleCsvSelect f w) else None)"
| "step h w ClickTrain =
     (if lifecycle w = Mounted then Some (startModelTraining w) else None)"
| "step h w ClickPredict =
     (if lifecycle w = Mounted then Some (requestPredictionMode w) else None)"
| "step h w (Respond k out) =
     (if lifecycle w \<noteq> Fresh \<and> k < length (inflight w)
      then Some (resume h (inflight w ! k) out (w\<lparr>inflight := dropNth k (inflight w)\<rparr>))
      else None)"
| "step h w (IntervalFire tm) =
     (case map_of (intervals w) tm of
        None \<Rightarrow> None
      | Some (fid, ts) \<Rightarrow> Some (singleIteration fid ts w))"
| "step h w (TimeoutFire k) =
     (if k < length (timeouts w) \<and> fst (timeouts w ! k) \<le> clock w
      then Some (predictionTimeout (fst (snd (timeouts w ! k))) (snd (snd (timeouts w ! k)))
                   (w\<lparr>timeouts := dropNth k (timeouts w)\<rparr>))
      else None)"
| "step h w (Advance d) = Some (w\<lparr>clock := clock w + d\<rparr>)"
| "step h w Unmount = (if lifecycle w = Mounted then Some (unmount w) else None)"

inductive reachable :: "host \<Rightarrow> world \<Rightarrow> bool" for h :: host where
  reach_init: "reachable h (initialWorld c)"
| reach_step: "reachable h w \<Longrightarrow> step h w ev = Some w' \<Longrightarrow> reachable h w'"

text \<open>Running a list of events from a state; \<open>None\<close> when one of them cannot happen.\<close>

fun run :: "host \<Rightarrow> world \<Rightarrow> event list \<Rightarrow> world option" where
  "run h w [] = Some w"
| "run h w (ev # evs) = (case step h w ev of None \<Rightarrow> None | Some w' \<Rightarrow> run h w' evs)"

section \<open>A sample environment\<close>

text \<open>
  The worked examples below run the page in an engine whose \<^verbatim>\<open>Date.parse\<close> knows one
  ISO date (midnight of 1 January 2024, UTC) and answers \<^verbatim>\<open>NaN\<close> otherwise, and whose
  \<^verbatim>\<open>Number\<close> knows the string \<^verbatim>\<open>"50"\<close> and answers \<^verbatim>\<open>NaN\<close> on any other string
  and on objects. \<open>jsonReply v\<close> is a response with status 200 whose body parses to
  \<open>v\<close>; \<open>httpError c t\<close> is a response with status \<open>c\<close> and the text \<open>t\<close>, which
  is not JSON.
\<close>

definition sampleHost :: host where
  "sampleHost =
     \<lparr> dateParse =
         (\<lambda>v. if v = JStr ''2024-01-01T00:00:00.000Z'' then Fin 1704067200000 else NaN),
       stringToNumber = (\<lambda>s. if s = ''50'' then Fin 50 else NaN),
       objectToNumber = (\<lambda>v. NaN),
       nullPropError = JsError ''TypeError'' ''Cannot read properties of null'' \<rparr>"

definition jsonReply :: "jsval \<Rightarrow> fetchOutcome" where
  "jsonReply v = Inr \<lparr>status = 200, bodyText = Inr [], bodyJson = Inr v\<rparr>"

definition httpError :: "nat \<Rightarrow> string \<Rightarrow> fetchOutcome" where
  "httpError c t =
     Inr \<lparr>status = c, bodyText = Inr t,
          bodyJson = Inl (JsError ''SyntaxError'' ''Unexpected token'')\<rparr>"

text \<open>The page mounted at time 1000 with both names in \<^verbatim>\<open>localStorage\<close>.\<close>

definition readyWorld :: world where
  "readyWorld = mount (Some ''ACME'') (Some ''Tonic1'') (initialWorld 1000)"

section \<open>Vocabulary of the properties\<close>

text \<open>A request succeeded when it produced a response whose status is 2xx.\<close>

definition succeeded :: "fetchOutcome \<Rightarrow> bool" where
  "succeeded out = (case out of Inl err \<Rightarrow> False | Inr res \<Rightarrow> ok res)"

text \<open>
  The phase of the data collection, read off the state: \<open>Submitting\<close> while the
  submitting flag is set, otherwise \<open>Polling\<close> while an interval timer of the page is
  set, otherwise \<open>Idle\<close> (which also stands for the Done of an earlier submission).
\<close>

datatype phase = Idle | Submitting | Polling

definition collectionPhase :: "world \<Rightarrow> phase" where
  "collectionPhase w =
     (if isSubmittingCollection w then Submitting
      else if intervals w \<noteq> [] then Polling
      else Idle)"

text \<open>
  A status poll returned status 0: the request succeeded, its body is JSON, and the test of
  \<^verbatim>\<open>singleIteration\<close> on the body holds. An event stops polling when it completes a
  status poll in this way; it restarts polling when it completes the POST of a submission
  with success. \<open>emitted w w'\<close> are the effects of a step from \<open>w\<close> to \<open>w'\<close>.
\<close>

definition statusZero :: "host \<Rightarrow> fetchOutcome \<Rightarrow> bool" where
  "statusZero h out =
     (case out of
        Inl err \<Rightarrow> False
      | Inr res \<Rightarrow>
          ok res \<and> (case bodyJson res of Inl err \<Rightarrow> False | Inr pdata \<Rightarrow> statusDone h pdata))"

definition stopsPolling :: "host \<Rightarrow> world \<Rightarrow> event \<Rightarrow> bool" where
  "stopsPolling h w ev =
     (case ev of
        Respond k out \<Rightarrow>
          k < length (inflight w) \<and> inflight w ! k = AwaitStatus \<and> statusZero h out
      | _ \<Rightarrow> False)"

definition restartsPolling :: "world \<Rightarrow> event \<Rightarrow> bool" where
  "restartsPolling w ev =
     (case ev of
        Respond k out \<Rightarrow>
          k < length (inflight w) \<and>
          (case inflight w ! k of AwaitSubmit fid ts \<Rightarrow> succeeded out | _ \<Rightarrow> False)
      | _ \<Rightarrow> False)"

definition emitted :: "world \<Rightarrow> world \<Rightarrow> effect list" where
  "emitted w w' = drop (length (trace w)) (trace w')"

text \<open>
  The invariant of the polling timer: the interval timers that are set are exactly the one
  whose handle \<^verbatim>\<open>pollingRef.current\<close> holds, if any; handles are positive and below the
  next handle.
\<close>

definition timerOk :: "nat option \<Rightarrow> (nat \<times> string \<times> jsnum option) list \<Rightarrow> nat \<Rightarrow> bool" where
  "timerOk r ivs n =
     (map fst ivs = (case r of None \<Rightarrow> [] | Some tm \<Rightarrow> [tm]) \<and>
      (case r of None \<Rightarrow> True | Some tm \<Rightarrow> 0 < tm \<and> tm < n) \<and>
      0 < n)"

definition timerInv :: "world \<Rightarrow> bool" where
  "timerInv w = timerOk (pollingRef w) (intervals w) (nextHandle w)"

text \<open>
  Counting the prediction fetches: the requests \<^verbatim>\<open>GET /predict\<close> issued so far and the
  one-shot timers still pending are together as many as the one-shot timers set so far.
\<close>

fun isPredictGet :: "effect \<Rightarrow> bool" where
  "isPredictGet (Fetch m ep fid body) = (m = ''GET'' \<and> ep = Predict)"
| "isPredictGet e = False"

fun isSetTimeout :: "effect \<Rightarrow> bool" where
  "isSetTimeout (SetTimeout d) = True"
| "isSetTimeout e = False"

definition predictOk :: "effect list \<Rightarrow> (nat \<times> string \<times> jsnum) list \<Rightarrow> bool" where
  "predictOk tr tos =
     (length (filter isPredictGet tr) + length tos = length (filter isSetTimeout tr))"

definition predictInv :: "world \<Rightarrow> bool" where
  "predictInv w = predictOk (trace w) (timeouts w)"

section \<open>Basic facts about the transition system\<close>

lemmas handler_defs =
  mount_def mountEffect_def syncIdEffect_def orEmpty_def
  fetchShellScript_def fetchShellScript_catch_def fetchShellScript_resume_def
  handleCollectionChange_def submitCollection_def clearPolling_def singleIteration_def
  pollForDataAndStatus_def submitCollection_catch_def submitCollection_resume_def
  singleIteration_getdata_def singleIteration_status_def unmount_def
  handleCsvSelect_def startModelTraining_def startModelTraining_catch_def
  startModelTraining_resume_def requestPredictionMode_def requestPredictionMode_catch_def
  requestPredictionMode_resume_def predictionTimeout_def predictionTimeout_catch_def
  predictionTimeout_resume_def emit_def

lemma reachable_run:
  "reachable h w \<Longrightarrow> run h w evs = Some w' \<Longrightarrow> reachable h w'"
proof (induction evs arbitrary: w)
  case Nil
  then show ?case by simp
next
  case (Cons ev evs)
  then show ?case
    by (auto split: option.splits intro: reach_step)
qed

lemmas run_simps =
  handler_defs initialWorld_def readyWorld_def jsonReply_def httpError_def ok_def
  textOrEmpty_def dropNth_def Let_def dateNow_def statusDone_def statusOf_def jsCoalesce_def
  nullish_def keepRecord_def recordTs_def parseTs_def jsOr_def sampleHost_def succeeded_def
  statusZero_def stopsPolling_def restartsPolling_def

lemma reachable_readyWorld: "reachable h readyWorld"
  unfolding readyWorld_def
  by (rule reach_step[OF reach_init, where ev = "Mount (Some ''ACME'') (Some ''Tonic1'')"])
     (simp add: initialWorld_def)

subsection \<open>Only mounting touches the names and the identifier\<close>

lemma resume_names:
  "factoryName (resume h t out w) = factoryName w \<and>
   medicineName (resume h t out w) = medicineName w \<and>
   factoryMedicineId (resume h t out w) = factoryMedicineId w"
  by (cases t) (auto simp: handler_defs Let_def split: sum.splits option.splits)

lemma resume_lifecycle: "lifecycle (resume h t out w) = lifecycle w"
  by (cases t) (auto simp: handler_defs Let_def split: sum.splits option.splits)

lemma step_stays_mounted:
  "step h w ev = Some w' \<Longrightarrow> lifecycle w' = Fresh \<Longrightarrow> lifecycle w = Fresh"
  by (cases ev)
     (auto simp: handler_defs resume_lifecycle split: if_splits option.splits prod.splits)

lemma step_names:
  assumes "step h w ev = Some w'" and "\<forall>fs ms. ev \<noteq> Mount fs ms"
  shows "factoryName w' = factoryName w \<and> medicineName w' = medicineName w \<and>
         factoryMedicineId w' = factoryMedicineId w"
  using assms
  by (cases ev)
     (auto simp: handler_defs resume_names split: if_splits option.splits prod.splits)

lemma identity_invariant:
  "reachable h w \<Longrightarrow>
     factoryMedicineId w =
       (if factoryName w \<noteq> [] \<and> medicineName w \<noteq> []
        then factoryName w @ ''_'' @ medicineName w else []) \<and>
     (lifecycle w = Fresh \<longrightarrow> factoryName w = [] \<and> medicineName w = [])"
proof (induction rule: reachable.induct)
  case (reach_init c)
  then show ?case by (simp add: initialWorld_def)
next
  case (reach_step w ev w')
  show ?case
  proof (cases "\<exists>fs ms. ev = Mount fs ms")
    case True
    then obtain fs ms where ev: "ev = Mount fs ms" by blast
    with reach_step show ?thesis
      by (auto simp: mount_def mountEffect_def syncIdEffect_def orEmpty_def Let_def
               split: if_splits option.splits)
  next
    case False
    then have nm: "\<forall>fs ms. ev \<noteq> Mount fs ms" by blast
    have lc: "lifecycle w' = Fresh \<Longrightarrow> lifecycle w = Fresh"
      using reach_step.hyps(2) by (rule step_stays_mounted)
    from step_names[OF reach_step.hyps(2) nm] reach_step.IH lc show ?thesis
      by auto
  qed
qed

section \<open>Session identity (C2)\<close>

text \<open>
  C2. In every reachable state of the page, \<^verbatim>\<open>factoryMedicineId\<close> is
  \<^verbatim>\<open>factoryName + "_" + medicineName\<close> when both names are non-empty and is the empty
  string when one of them is empty. The names change only at mount, where the effect that
  recomputes the identifier runs; in every reachable state that effect has nothing left to
  do.
\<close>

theorem session_identity:
  assumes "reachable h w"
  shows "factoryMedicineId w =
           (if factoryName w \<noteq> [] \<and> medicineName w \<noteq> []
            then factoryName w @ ''_'' @ medicineName w else [])
         \<and> syncIdEffect w = w"
proof -
  from identity_invariant[OF assms]
  have inv: "factoryMedicineId w =
           (if factoryName w \<noteq> [] \<and> medicineName w \<noteq> []
            then factoryName w @ ''_'' @ medicineName w else [])"
    by blast
  then have "syncIdEffect w = w"
    by (simp add: syncIdEffect_def)
  with inv show ?thesis by blast
qed

theorem session_identity_witness:
  "reachable sampleHost (mount (Some ''ACME'') (Some ''Tonic1'') (initialWorld 0)) \<and>
   factoryMedicineId (mount (Some ''ACME'') (Some ''Tonic1'') (initialWorld 0)) = ''ACME_Tonic1'' \<and>
   reachable sampleHost (mount (Some ''ACME'') None (initialWorld 0)) \<and>
   factoryMedicineId (mount (Some ''ACME'') None (initialWorld 0)) = []"
proof -
  have r1: "reachable sampleHost (mount (Some ''ACME'') (Some ''Tonic1'') (initialWorld 0))"
    by (rule reach_step[OF reach_init, where ev = "Mount (Some ''ACME'') (Some ''Tonic1'')"])
       (simp add: initialWorld_def)
  have r2: "reachable sampleHost (mount (Some ''ACME'') None (initialWorld 0))"
    by (rule reach_step[OF reach_init, where ev = "Mount (Some ''ACME'') None"])
       (simp add: initialWorld_def)
  from session_identity[OF r1] session_identity[OF r2] r1 r2 show ?thesis
    by (simp add: mount_def mountEffect_def syncIdEffect_def orEmpty_def initialWorld_def
                  Let_def)
qed

subsection \<open>Small facts about errors and objects\<close>

lemma errText_newError: "msg \<noteq> [] \<Longrightarrow> errText (newError msg) = msg"
  by (simp add: errText_def newError_def)

lemma map_of_objSet: "map_of (objSet k v al) = (map_of al)(k \<mapsto> v)"
  by (induction al) (auto simp: fun_eq_iff)

lemma keys_objSet: "k \<in> fst ` set al \<Longrightarrow> map fst (objSet k v al) = map fst al"
  by (induction al) auto

lemma map_of_jsonNum:
  "map_of (map (\<lambda>(k, v). (k, jsonNum v)) al) k = map_option jsonNum (map_of al k)"
  by (induction al) auto

section \<open>Guards of the remote operations (C1)\<close>

text \<open>
  C1, as the code has it. In every reachable state in which \<^verbatim>\<open>factoryName\<close> or
  \<^verbatim>\<open>medicineName\<close> is empty, \<^verbatim>\<open>fetchShellScript\<close>, \<^verbatim>\<open>submitCollection\<close> and
  \<^verbatim>\<open>requestPredictionMode\<close> do nothing but raise the alert: no request is issued and
  nothing is left in flight. \<^verbatim>\<open>startModelTraining\<close> is rejected in the same way when
  \<^verbatim>\<open>factoryName\<close> is empty, and when no CSV file has been selected.
\<close>

theorem remote_operations_guarded:
  assumes "reachable h w" and "factoryName w = [] \<or> medicineName w = []"
  shows "fetchShellScript w = emit [Alert setNamesAlert] w \<and>
         submitCollection w = emit [Alert setNamesAlert] w \<and>
         requestPredictionMode w = emit [Alert setNamesAlert] w \<and>
         (factoryName w = [] \<longrightarrow>
            startModelTraining w =
              emit [Alert ''Factory/medicine not set. Please set them on Home page.''] w) \<and>
         (factoryName w \<noteq> [] \<and> csvFile w = None \<longrightarrow>
            startModelTraining w = emit [Alert ''Please upload a CSV file first.''] w)"
proof -
  from identity_invariant[OF assms(1)] assms(2) have "factoryMedicineId w = []"
    by auto
  then show ?thesis
    by (simp add: fetchShellScript_def submitCollection_def requestPredictionMode_def
          startModelTraining_def)
qed

theorem remote_operations_guarded_witness:
  "reachable sampleHost (mount (Some ''ACME'') None (initialWorld 0)) \<and>
   medicineName (mount (Some ''ACME'') None (initialWorld 0)) = [] \<and>
   trace (fetchShellScript (mount (Some ''ACME'') None (initialWorld 0))) = [Alert setNamesAlert] \<and>
   trace (submitCollection (mount (Some ''ACME'') None (initialWorld 0))) = [Alert setNamesAlert] \<and>
   trace (requestPredictionMode (mount (Some ''ACME'') None (initialWorld 0))) = [Alert setNamesAlert] \<and>
   trace (startModelTraining (mount (Some ''ACME'') None (initialWorld 0))) =
     [Alert ''Please upload a CSV file first.'']"
proof -
  have r: "reachable sampleHost (mount (Some ''ACME'') None (initialWorld 0))"
    by (rule reach_step[OF reach_init, where ev = "Mount (Some ''ACME'') None"])
       (simp add: initialWorld_def)
  have m: "medicineName (mount (Some ''ACME'') None (initialWorld 0)) = []"
    by (simp add: mount_def mountEffect_def syncIdEffect_def orEmpty_def initialWorld_def Let_def)
  from remote_operations_guarded[OF r disjI2[OF m]] r m show ?thesis
    by (simp add: mount_def mountEffect_def syncIdEffect_def orEmpty_def initialWorld_def Let_def
          emit_def)
qed

text \<open>
  The sentence of the specification fails for \<^verbatim>\<open>startModelTraining\<close>: its guard is
  \<^verbatim>\<open>!factoryName && !factoryMedicineId\<close>, so with a factory name, no medicine name and
  a CSV file selected the request is issued, to \<^verbatim>\<open>/train/\<close> followed by the empty
  identifier.
\<close>

theorem training_without_medicine_counterexample:
  "map_option (\<lambda>w. (factoryName w, medicineName w, csvFile w))
     (run sampleHost (initialWorld 0) [Mount (Some ''ACME'') None, SelectCsv (Some ''data.csv'')])
     = Some (''ACME'', [], Some ''data.csv'') \<and>
   map_option trace
     (run sampleHost (initialWorld 0)
        [Mount (Some ''ACME'') None, SelectCsv (Some ''data.csv''), ClickTrain])
     = Some [Fetch ''POST'' Train [] None]"
  by (simp add: initialWorld_def mount_def mountEffect_def syncIdEffect_def orEmpty_def
        handleCsvSelect_def startModelTraining_def emit_def Let_def)

section \<open>Failure of a submission (C7)\<close>

lemma submitCollection_accepted:
  "factoryMedicineId w \<noteq> [] \<Longrightarrow>
     submitCollection w =
       w\<lparr>trace := trace w @ [Fetch ''POST'' Picron (factoryMedicineId w)
                                (Some (JObj (collectionPayload w)))],
         isSubmittingCollection := True, collectedEntries := [],
         collectionStartTs := Some (dateNow w),
         inflight := inflight w @ [AwaitSubmit (factoryMedicineId w) (collectionStartTs w)]\<rparr>"
  by (simp add: submitCollection_def emit_def)

lemma submitCollection_resume_failed:
  "\<not> succeeded out \<Longrightarrow>
     \<exists>err. submitCollection_resume fid ts out v = submitCollection_catch err v"
  by (cases out) (auto simp: succeeded_def submitCollection_resume_def)

lemma pollForDataAndStatus_frame:
  "collectionStartTs (pollForDataAndStatus fid ts v) = collectionStartTs v \<and>
   collectedEntries (pollForDataAndStatus fid ts v) = collectedEntries v"
  by (simp add: pollForDataAndStatus_def clearPolling_def singleIteration_def emit_def Let_def
        split: option.splits)

lemma submitCollection_resume_frame:
  "collectionStartTs (submitCollection_resume fid ts out v) = collectionStartTs v \<and>
   collectedEntries (submitCollection_resume fid ts out v) = collectedEntries v"
  by (cases out)
     (simp_all add: submitCollection_resume_def submitCollection_catch_def emit_def
        pollForDataAndStatus_frame)

text \<open>
  C7, as the code has it. \<^verbatim>\<open>submitCollection\<close>, when its guard passes, records
  \<^verbatim>\<open>collectionStartTs = Date.now()\<close>, empties the collected entries and sets the
  submitting flag in the same run in which it issues the POST, whatever the outcome of the
  request will be. When the request fails (the \<^verbatim>\<open>fetch\<close> rejects, or the status is not
  2xx) the rest of the function logs the error, raises the alert and clears the flag, and
  does nothing else: \<^verbatim>\<open>pollForDataAndStatus\<close> is not called, so this submission sets
  no timer and issues no polling request, and the timers, \<^verbatim>\<open>pollingRef\<close> and the
  requests in flight are as they were. The phase afterwards is Idle when no timer was set,
  and Polling when the timer of an earlier submission was set. On either outcome the rest
  of the function leaves the start timestamp and the entries as they are.
\<close>

theorem submit_failure:
  assumes "factoryMedicineId w \<noteq> []" and "\<not> succeeded out"
  shows "collectionStartTs (submitCollection w) = Some (dateNow w) \<and>
         collectedEntries (submitCollection w) = [] \<and>
         isSubmittingCollection (submitCollection w) \<and>
         trace (submitCollection w) =
           trace w @ [Fetch ''POST'' Picron (factoryMedicineId w)
                        (Some (JObj (collectionPayload w)))] \<and>
         inflight (submitCollection w) =
           inflight w @ [AwaitSubmit (factoryMedicineId w) (collectionStartTs w)] \<and>
         (\<exists>err. submitCollection_resume fid ts out v =
            (emit [ConsoleError err,
                   Alert ''Error submitting data collection. See console for details.''] v)
              \<lparr>isSubmittingCollection := False\<rparr>) \<and>
         isSubmittingCollection (submitCollection_resume fid ts out v) = False \<and>
         intervals (submitCollection_resume fid ts out v) = intervals v \<and>
         pollingRef (submitCollection_resume fid ts out v) = pollingRef v \<and>
         inflight (submitCollection_resume fid ts out v) = inflight v \<and>
         collectionPhase (submitCollection_resume fid ts out v) =
           (if intervals v = [] then Idle else Polling) \<and>
         collectionStartTs (submitCollection_resume fid ts out' v) = collectionStartTs v \<and>
         collectedEntries (submitCollection_resume fid ts out' v) = collectedEntries v"
proof -
  have a: "collectionStartTs (submitCollection w) = Some (dateNow w) \<and>
         collectedEntries (submitCollection w) = [] \<and>
         isSubmittingCollection (submitCollection w) \<and>
         trace (submitCollection w) =
           trace w @ [Fetch ''POST'' Picron (factoryMedicineId w)
                        (Some (JObj (collectionPayload w)))] \<and>
         inflight (submitCollection w) =
           inflight w @ [AwaitSubmit (factoryMedicineId w) (collectionStartTs w)]"
    by (simp add: submitCollection_accepted[OF assms(1)])
  from submitCollection_resume_failed[OF assms(2)]
  obtain err where e: "submitCollection_resume fid ts out v = submitCollection_catch err v"
    by blast
  then have b: "\<exists>err. submitCollection_resume fid ts out v =
            (emit [ConsoleError err,
                   Alert ''Error submitting data collection. See console for details.''] v)
              \<lparr>isSubmittingCollection := False\<rparr>"
    by (auto simp: submitCollection_catch_def)
  have c: "isSubmittingCollection (submitCollection_resume fid ts out v) = False \<and>
         intervals (submitCollection_resume fid ts out v) = intervals v \<and>
         pollingRef (submitCollection_resume fid ts out v) = pollingRef v \<and>
         inflight (submitCollection_resume fid ts out v) = inflight v"
    by (simp add: e submitCollection_catch_def emit_def)
  then have d: "collectionPhase (submitCollection_resume fid ts out v) =
           (if intervals v = [] then Idle else Polling)"
    by (simp add: collectionPhase_def)
  from a b c d submitCollection_resume_frame[of fid ts out' v] show ?thesis
    by blast
qed

theorem submit_failure_witness:
  "factoryMedicineId readyWorld \<noteq> [] \<and> \<not> succeeded (httpError 500 ''down'') \<and>
   collectionStartTs (submitCollection readyWorld) = Some (Fin 1000) \<and>
   collectedEntries (submitCollection readyWorld) = [] \<and>
   map_option (\<lambda>w. (drop 1 (trace w), isSubmittingCollection w, intervals w, pollingRef w,
                      inflight w, collectionStartTs w, collectedEntries w, collectionPhase w))
     (run sampleHost readyWorld [ClickSubmit, Respond 0 (httpError 500 ''down'')]) =
     Some ([ConsoleError (newError ''Failed to submit: 500 down''),
            Alert ''Error submitting data collection. See console for details.''],
           False, [], None, [], Some (Fin 1000), [], Idle)"
proof -
  have g: "factoryMedicineId readyWorld \<noteq> []"
    by (simp add: readyWorld_def mount_def mountEffect_def syncIdEffect_def orEmpty_def
          initialWorld_def Let_def)
  have f: "\<not> succeeded (httpError 500 ''down'')"
    by (simp add: succeeded_def httpError_def ok_def)
  from submit_failure[OF g f, of "''ACME_Tonic1''" None "submitCollection readyWorld\<lparr>inflight := []\<rparr>" "httpError 500 ''down''"] g f show ?thesis
    by (simp add: readyWorld_def mount_def mountEffect_def syncIdEffect_def orEmpty_def
          initialWorld_def Let_def submitCollection_def emit_def dateNow_def dropNth_def
          submitCollection_resume_def submitCollection_catch_def httpError_def ok_def
          textOrEmpty_def showNat.simps digitChar_def collectionPhase_def)
qed

text \<open>
  The sentence of the specification fails where it says that the phase returns to Idle.
  The failure path never touches \<^verbatim>\<open>pollingRef\<close>, and the submit button is enabled
  again once the first POST has completed: after a successful submission, a second
  submission whose POST fails leaves the timer of the first one set, the phase is Polling,
  and the timer goes on to fire and to issue \<^verbatim>\<open>GET /getdata\<close>.
\<close>

theorem failed_resubmission_counterexample:
  "\<not> succeeded (httpError 500 ''down'') \<and>
   map_option (\<lambda>w. (collectionPhase w, intervals w, pollingRef w, isSubmittingCollection w))
     (run sampleHost readyWorld
        [ClickSubmit, Respond 0 (jsonReply JNull),
         ClickSubmit, Respond 1 (httpError 500 ''down'')]) =
     Some (Polling, [(1, ''ACME_Tonic1'', None)], Some 1, False) \<and>
   map_option (\<lambda>w. last (trace w))
     (run sampleHost readyWorld
        [ClickSubmit, Respond 0 (jsonReply JNull),
         ClickSubmit, Respond 1 (httpError 500 ''down''), IntervalFire 1]) =
     Some (Fetch ''GET'' Getdata ''ACME_Tonic1'' None)"
  by (simp add: run_simps collectionPhase_def showNat.simps digitChar_def)

section \<open>Training status (C8)\<close>

text \<open>
  C8. When \<^verbatim>\<open>POST /train/{id}\<close> answers with a status that is not 2xx, the training
  message is \<^verbatim>\<open>Error starting training: Training request failed: \<close> followed by the
  status code, a space and the body of the response; on a 2xx status it is the fixed text
  \<^verbatim>\<open>Model training started successfully.\<close>; when the request itself fails it is
  \<^verbatim>\<open>Error starting training: \<close> followed by the text of the error. However the
  request ends, the training flag is false afterwards; and a call that one of the two guards
  rejects issues no request and leaves the flag as it was.
\<close>

theorem training_status:
  "(\<not> ok res \<longrightarrow>
      trainMessage (startModelTraining_resume (Inr res) w) =
        ''Error starting training: Training request failed: '' @ showNat (status res) @ '' ''
          @ textOrEmpty res) \<and>
   (ok res \<longrightarrow>
      trainMessage (startModelTraining_resume (Inr res) w) =
        ''Model training started successfully.'') \<and>
   trainMessage (startModelTraining_resume (Inl err) w) =
     ''Error starting training: '' @ errText err \<and>
   isTraining (startModelTraining_resume out w) = False \<and>
   (factoryName w = [] \<and> factoryMedicineId w = [] \<or> csvFile w = None \<longrightarrow>
      isTraining (startModelTraining w) = isTraining w \<and>
      inflight (startModelTraining w) = inflight w)"
  by (auto simp: startModelTraining_resume_def startModelTraining_catch_def emit_def
        startModelTraining_def errText_newError split: sum.splits)

theorem training_status_witness:
  "\<not> ok \<lparr>status = 500, bodyText = Inr ''bad csv'', bodyJson = Inl (JsError ''SyntaxError'' ''Unexpected token'')\<rparr> \<and>
   trainMessage (startModelTraining_resume (httpError 500 ''bad csv'') (initialWorld 0)) =
     ''Error starting training: Training request failed: 500 bad csv'' \<and>
   isTraining (startModelTraining_resume (httpError 500 ''bad csv'') (initialWorld 0)) = False"
  using training_status[of "\<lparr>status = 500, bodyText = Inr ''bad csv'', bodyJson = Inl (JsError ''SyntaxError'' ''Unexpected token'')\<rparr>"
      "initialWorld 0" "JsError [] []" "httpError 500 ''bad csv''"]
  by (simp add: httpError_def ok_def textOrEmpty_def showNat.simps digitChar_def)

section \<open>Changes of the collection form (C10)\<close>

text \<open>
  C10. A change event with target name \<open>name\<close> and value \<open>val\<close> sets the field
  \<open>name\<close> of the collection form to \<^verbatim>\<open>Number(val)\<close> and leaves every other field of
  the form, and everything else in the state, as it was; a field that exists keeps its
  place. When \<^verbatim>\<open>Number(val)\<close> is \<^verbatim>\<open>NaN\<close>, the payload of the next submission has
  \<^verbatim>\<open>null\<close> in that field (for a field other than \<^verbatim>\<open>status\<close> and \<^verbatim>\<open>factory\<close>,
  which the payload overwrites).
\<close>

theorem form_change:
  "map_of (collectionForm (handleCollectionChange h name val w)) =
     (map_of (collectionForm w))(name \<mapsto> toNumber h (JStr val)) \<and>
   handleCollectionChange h name val w =
     w\<lparr>collectionForm := collectionForm (handleCollectionChange h name val w)\<rparr> \<and>
   (name \<in> fst ` set (collectionForm w) \<longrightarrow>
      map fst (collectionForm (handleCollectionChange h name val w)) =
        map fst (collectionForm w)) \<and>
   (toNumber h (JStr val) = NaN \<and> name \<noteq> ''status'' \<and> name \<noteq> ''factory'' \<longrightarrow>
      map_of (collectionPayload (handleCollectionChange h name val w)) name = Some JNull)"
  by (simp add: handleCollectionChange_def map_of_objSet keys_objSet collectionPayload_def
        map_of_jsonNum)

theorem form_change_witness:
  "toNumber sampleHost (JStr ''abc'') = NaN \<and>
   map_of (collectionForm (handleCollectionChange sampleHost ''dilution'' ''abc'' (initialWorld 0)))
     ''dilution'' = Some NaN \<and>
   map_of (collectionForm (handleCollectionChange sampleHost ''dilution'' ''abc'' (initialWorld 0)))
     ''quality'' = Some (Fin 0) \<and>
   map_of (collectionPayload (handleCollectionChange sampleHost ''dilution'' ''abc'' (initialWorld 0)))
     ''dilution'' = Some JNull \<and>
   map_of (collectionForm (handleCollectionChange sampleHost ''dilution'' ''50'' (initialWorld 0)))
     ''dilution'' = Some (Fin 50)"
  using form_change[of sampleHost "''dilution''" "''abc''" "initialWorld 0"]
        form_change[of sampleHost "''dilution''" "''50''" "initialWorld 0"]
  by (simp add: sampleHost_def initialWorld_def)

section \<open>The polling timer\<close>

subsection \<open>The timer invariant\<close>

lemma filter_single: "map fst xs = [tm] \<Longrightarrow> filter (\<lambda>p. fst p \<noteq> tm) xs = []"
  by (cases xs) auto

lemma clearPolling_None: "pollingRef w = None \<Longrightarrow> clearPolling w = w"
  by (simp add: clearPolling_def)

lemma clearPolling_Some:
  assumes "timerInv w" and "pollingRef w = Some tm"
  shows "clearPolling w =
           w\<lparr>trace := trace w @ [ClearInterval tm], intervals := [], pollingRef := None\<rparr>"
proof -
  from assms have "map fst (intervals w) = [tm]" and "tm \<noteq> 0"
    by (simp_all add: timerInv_def timerOk_def)
  then show ?thesis
    using assms(2) by (simp add: clearPolling_def emit_def filter_single)
qed

lemma timerInv_clearPolling: "timerInv w \<Longrightarrow> timerInv (clearPolling w)"
proof (cases "pollingRef w")
  case None
  assume "timerInv w"
  then show ?thesis by (simp add: clearPolling_None[OF None])
next
  case (Some tm)
  assume inv: "timerInv w"
  then show ?thesis
    by (simp add: clearPolling_Some[OF inv Some]) (simp add: timerInv_def timerOk_def)
qed

lemma pollForDataAndStatus_eq:
  "timerInv w \<Longrightarrow>
   pollForDataAndStatus fid ts w =
     w\<lparr>trace := trace w @ (case pollingRef w of None \<Rightarrow> [] | Some tm \<Rightarrow> [ClearInterval tm])
                  @ [Fetch ''GET'' Getdata fid None, SetInterval (nextHandle w) 15000],
       inflight := inflight w @ [AwaitGetdata fid ts],
       pollingRef := Some (nextHandle w),
       intervals := [(nextHandle w, fid, ts)],
       nextHandle := Suc (nextHandle w)\<rparr>"
proof (cases "pollingRef w")
  case None
  assume "timerInv w"
  with None have "intervals w = []" by (simp add: timerInv_def timerOk_def)
  with None show ?thesis
    by (simp add: pollForDataAndStatus_def clearPolling_None singleIteration_def emit_def Let_def)
next
  case (Some tm)
  assume inv: "timerInv w"
  show ?thesis
    by (simp add: pollForDataAndStatus_def clearPolling_Some[OF inv Some] Some
          singleIteration_def emit_def Let_def)
qed

lemma timerInv_poll: "timerInv w \<Longrightarrow> timerInv (pollForDataAndStatus fid ts w)"
  by (simp add: pollForDataAndStatus_eq) (simp add: timerInv_def timerOk_def)

lemma timerInv_resume:
  assumes inv: "timerInv w"
  shows "timerInv (resume h t out w)"
proof (cases t)
  case AwaitShell
  with inv show ?thesis
    by (auto simp: fetchShellScript_resume_def fetchShellScript_catch_def emit_def
          timerInv_def split: sum.splits)
next
  case (AwaitSubmit fid ts)
  with inv show ?thesis
    by (auto simp: submitCollection_resume_def submitCollection_catch_def emit_def
          timerInv_poll[unfolded timerInv_def] timerInv_def split: sum.splits)
next
  case (AwaitGetdata fid ts)
  with inv show ?thesis
    by (auto simp: singleIteration_getdata_def emit_def Let_def
          timerInv_def split: sum.splits option.splits)
next
  case AwaitStatus
  with inv show ?thesis
    by (auto simp: singleIteration_status_def emit_def timerInv_clearPolling[unfolded timerInv_def]
          timerInv_def split: sum.splits)
next
  case AwaitTrain
  with inv show ?thesis
    by (auto simp: startModelTraining_resume_def startModelTraining_catch_def emit_def
          timerInv_def split: sum.splits)
next
  case (AwaitPredictPost fid t)
  with inv show ?thesis
    by (auto simp: requestPredictionMode_resume_def requestPredictionMode_catch_def emit_def
          timerInv_def split: sum.splits)
next
  case (AwaitPredictGet t)
  with inv show ?thesis
    by (auto simp: predictionTimeout_resume_def predictionTimeout_catch_def emit_def
          timerInv_def split: sum.splits option.splits)
qed

lemma timerInv_step:
  assumes "timerInv w" and "step h w ev = Some w'"
  shows "timerInv w'"
proof (cases ev)
  case (Respond k out)
  have "timerInv (w\<lparr>inflight := dropNth k (inflight w)\<rparr>)"
    using assms(1) by (simp add: timerInv_def)
  with assms(2) Respond show ?thesis
    by (auto simp: timerInv_resume split: if_splits)
next
  case Unmount
  with assms timerInv_clearPolling[OF assms(1)] show ?thesis
    by (auto simp: unmount_def timerInv_def split: if_splits)
qed (use assms in \<open>auto simp: handler_defs Let_def timerInv_def split: if_splits option.splits\<close>)

lemma timerInv_reachable: "reachable h w \<Longrightarrow> timerInv w"
proof (induction rule: reachable.induct)
  case (reach_init c)
  show ?case by (simp add: timerInv_def timerOk_def initialWorld_def)
next
  case (reach_step w ev w')
  then show ?case by (blast intro: timerInv_step)
qed

lemma status_resume_eq:
  "singleIteration_status h out w =
     (if statusZero h out then clearPolling w
      else case out of
             Inl err \<Rightarrow> emit [ConsoleWarn ''picron status fetch failed'' err] w
           | Inr res \<Rightarrow>
               if ok res then (case bodyJson res of
                   Inl err \<Rightarrow> emit [ConsoleWarn ''picron status fetch failed'' err] w
                 | Inr pdata \<Rightarrow> w)
               else w)"
  by (simp add: singleIteration_status_def statusZero_def split: sum.splits)

lemma submit_resume_eq:
  "submitCollection_resume fid ts out w =
     (if succeeded out then (pollForDataAndStatus fid ts w)\<lparr>isSubmittingCollection := False\<rparr>
      else case out of
             Inl err \<Rightarrow> submitCollection_catch err w
           | Inr res \<Rightarrow> submitCollection_catch
                 (newError (''Failed to submit: '' @ showNat (status res) @ '' ''
                            @ textOrEmpty res)) w)"
  by (simp add: submitCollection_resume_def succeeded_def split: sum.splits)

lemma resume_intervals:
  assumes inv: "timerInv w"
  shows "intervals (resume h t out w) =
     (case t of
        AwaitStatus \<Rightarrow> if statusZero h out then [] else intervals w
      | AwaitSubmit fid ts \<Rightarrow> if succeeded out then [(nextHandle w, fid, ts)] else intervals w
      | _ \<Rightarrow> intervals w)"
proof (cases t)
  case AwaitShell
  then show ?thesis
    by (auto simp: fetchShellScript_resume_def fetchShellScript_catch_def emit_def
          split: sum.splits)
next
  case (AwaitSubmit fid ts)
  then show ?thesis
    by (auto simp: submit_resume_eq pollForDataAndStatus_eq[OF inv]
          submitCollection_catch_def emit_def split: sum.splits)
next
  case (AwaitGetdata fid ts)
  then show ?thesis
    by (auto simp: singleIteration_getdata_def emit_def Let_def
          split: sum.splits option.splits)
next
  case AwaitStatus
  show ?thesis
  proof (cases "pollingRef w")
    case None
    with inv have "intervals w = []" by (simp add: timerInv_def timerOk_def)
    with AwaitStatus None show ?thesis
      by (auto simp: status_resume_eq clearPolling_None emit_def split: sum.splits)
  next
    case (Some tm)
    with AwaitStatus show ?thesis
      by (auto simp: status_resume_eq clearPolling_Some[OF inv Some] emit_def split: sum.splits)
  qed
next
  case AwaitTrain
  then show ?thesis
    by (auto simp: startModelTraining_resume_def startModelTraining_catch_def emit_def
          split: sum.splits)
next
  case (AwaitPredictPost fid t)
  then show ?thesis
    by (auto simp: requestPredictionMode_resume_def requestPredictionMode_catch_def emit_def
          split: sum.splits)
next
  case (AwaitPredictGet t)
  then show ?thesis
    by (auto simp: predictionTimeout_resume_def predictionTimeout_catch_def emit_def
          split: sum.splits option.splits)
qed

lemma step_intervals:
  assumes inv: "timerInv w" and st: "step h w ev = Some w'"
  shows "intervals w' =
     (if stopsPolling h w ev \<or> ev = Unmount then []
      else if restartsPolling w ev
      then (case ev of Respond k out \<Rightarrow>
              (case inflight w ! k of AwaitSubmit fid ts \<Rightarrow> [(nextHandle w, fid, ts)]
               | _ \<Rightarrow> intervals w)
            | _ \<Rightarrow> intervals w)
      else intervals w)"
proof (cases ev)
  case (Respond k out)
  have inv': "timerInv (w\<lparr>inflight := dropNth k (inflight w)\<rparr>)"
    using inv by (simp add: timerInv_def)
  from st Respond have k: "k < length (inflight w)"
    and w': "w' = resume h (inflight w ! k) out (w\<lparr>inflight := dropNth k (inflight w)\<rparr>)"
    by (simp_all split: if_splits)
  show ?thesis
    unfolding w' resume_intervals[OF inv']
    by (simp add: Respond k stopsPolling_def restartsPolling_def split: task.splits)
next
  case Unmount
  show ?thesis
  proof (cases "pollingRef w")
    case None
    with inv have "intervals w = []" by (simp add: timerInv_def timerOk_def)
    with st Unmount None show ?thesis
      by (auto simp: unmount_def clearPolling_None split: if_splits)
  next
    case (Some tm)
    with st Unmount show ?thesis
      by (auto simp: unmount_def clearPolling_Some[OF inv Some] split: if_splits)
  qed
qed (use st in \<open>auto simp: handler_defs Let_def stopsPolling_def restartsPolling_def
        split: if_splits option.splits\<close>)

lemma resume_getdata_origin:
  assumes inv: "timerInv w"
    and mem: "Fetch ''GET'' Getdata fid None \<in> set (drop (length (trace w)) (trace (resume h t out w)))"
  shows "\<exists>ts. t = AwaitSubmit fid ts \<and> succeeded out"
proof (cases t)
  case AwaitShell
  with mem show ?thesis
    by (auto simp: fetchShellScript_resume_def fetchShellScript_catch_def emit_def
          split: sum.splits if_splits)
next
  case (AwaitSubmit fid' ts)
  with mem show ?thesis
    by (auto simp: submit_resume_eq pollForDataAndStatus_eq[OF inv]
          submitCollection_catch_def emit_def split: sum.splits if_splits option.splits)
next
  case (AwaitGetdata fid' ts)
  with mem show ?thesis
    by (auto simp: singleIteration_getdata_def emit_def Let_def
          split: sum.splits option.splits if_splits)
next
  case AwaitStatus
  show ?thesis
  proof (cases "pollingRef w")
    case None
    with AwaitStatus mem show ?thesis
      by (auto simp: status_resume_eq clearPolling_None emit_def split: sum.splits if_splits)
  next
    case (Some tm)
    with AwaitStatus mem show ?thesis
      by (auto simp: status_resume_eq clearPolling_Some[OF inv Some] emit_def
            split: sum.splits if_splits)
  qed
next
  case AwaitTrain
  with mem show ?thesis
    by (auto simp: startModelTraining_resume_def startModelTraining_catch_def emit_def
          split: sum.splits if_splits)
next
  case (AwaitPredictPost fid' t)
  with mem show ?thesis
    by (auto simp: requestPredictionMode_resume_def requestPredictionMode_catch_def emit_def
          split: sum.splits if_splits)
next
  case (AwaitPredictGet t)
  with mem show ?thesis
    by (auto simp: predictionTimeout_resume_def predictionTimeout_catch_def emit_def
          split: sum.splits option.splits if_splits)
qed

lemma step_getdata_origin:
  assumes inv: "timerInv w" and st: "step h w ev = Some w'"
    and mem: "Fetch ''GET'' Getdata fid None \<in> set (emitted w w')"
  shows "(\<exists>tm ts. ev = IntervalFire tm \<and> map_of (intervals w) tm = Some (fid, ts)) \<or>
         (\<exists>k ts out. ev = Respond k out \<and> inflight w ! k = AwaitSubmit fid ts \<and> succeeded out)"
proof (cases ev)
  case (Respond k out)
  have inv': "timerInv (w\<lparr>inflight := dropNth k (inflight w)\<rparr>)"
    using inv by (simp add: timerInv_def)
  from st Respond have w': "w' = resume h (inflight w ! k) out (w\<lparr>inflight := dropNth k (inflight w)\<rparr>)"
    by (simp split: if_splits)
  from mem have "Fetch ''GET'' Getdata fid None \<in> set (drop (length (trace (w\<lparr>inflight := dropNth k (inflight w)\<rparr>)))
        (trace (resume h (inflight w ! k) out (w\<lparr>inflight := dropNth k (inflight w)\<rparr>))))"
    by (simp add: emitted_def w')
  from resume_getdata_origin[OF inv' this] Respond show ?thesis by blast
next
  case Unmount
  show ?thesis
  proof (cases "pollingRef w")
    case None
    with st Unmount mem show ?thesis
      by (auto simp: unmount_def clearPolling_None emitted_def split: if_splits)
  next
    case (Some tm)
    with st Unmount mem show ?thesis
      by (auto simp: unmount_def clearPolling_Some[OF inv Some] emitted_def split: if_splits)
  qed
qed (use st mem in \<open>auto simp: handler_defs Let_def emitted_def
        split: if_splits option.splits\<close>)

lemma resume_picron_origin:
  assumes inv: "timerInv w"
    and mem: "Fetch ''GET'' Picron fid None \<in> set (drop (length (trace w)) (trace (resume h t out w)))"
  shows "\<exists>ts. t = AwaitGetdata fid ts"
proof (cases t)
  case AwaitShell
  with mem show ?thesis
    by (auto simp: fetchShellScript_resume_def fetchShellScript_catch_def emit_def
          split: sum.splits if_splits)
next
  case (AwaitSubmit fid' ts)
  with mem show ?thesis
    by (auto simp: submit_resume_eq pollForDataAndStatus_eq[OF inv]
          submitCollection_catch_def emit_def split: sum.splits if_splits option.splits)
next
  case (AwaitGetdata fid' ts)
  with mem show ?thesis
    by (auto simp: singleIteration_getdata_def emit_def Let_def
          split: sum.splits option.splits if_splits)
next
  case AwaitStatus
  show ?thesis
  proof (cases "pollingRef w")
    case None
    with AwaitStatus mem show ?thesis
      by (auto simp: status_resume_eq clearPolling_None emit_def split: sum.splits if_splits)
  next
    case (Some tm)
    with AwaitStatus mem show ?thesis
      by (auto simp: status_resume_eq clearPolling_Some[OF inv Some] emit_def
            split: sum.splits if_splits)
  qed
next
  case AwaitTrain
  with mem show ?thesis
    by (auto simp: startModelTraining_resume_def startModelTraining_catch_def emit_def
          split: sum.splits if_splits)
next
  case (AwaitPredictPost fid' t)
  with mem show ?thesis
    by (auto simp: requestPredictionMode_resume_def requestPredictionMode_catch_def emit_def
          split: sum.splits if_splits)
next
  case (AwaitPredictGet t)
  with mem show ?thesis
    by (auto simp: predictionTimeout_resume_def predictionTimeout_catch_def emit_def
          split: sum.splits option.splits if_splits)
qed

lemma step_picron_origin:
  assumes inv: "timerInv w" and st: "step h w ev = Some w'"
    and mem: "Fetch ''GET'' Picron fid None \<in> set (emitted w w')"
  shows "\<exists>k ts out. ev = Respond k out \<and> k < length (inflight w) \<and>
           inflight w ! k = AwaitGetdata fid ts"
proof (cases ev)
  case (Respond k out)
  have inv': "timerInv (w\<lparr>inflight := dropNth k (inflight w)\<rparr>)"
    using inv by (simp add: timerInv_def)
  from st Respond have k: "k < length (inflight w)"
    and w': "w' = resume h (inflight w ! k) out (w\<lparr>inflight := dropNth k (inflight w)\<rparr>)"
    by (simp_all split: if_splits)
  from mem have "Fetch ''GET'' Picron fid None \<in> set (drop (length (trace (w\<lparr>inflight := dropNth k (inflight w)\<rparr>)))
        (trace (resume h (inflight w ! k) out (w\<lparr>inflight := dropNth k (inflight w)\<rparr>))))"
    by (simp add: emitted_def w')
  from resume_picron_origin[OF inv' this] Respond k show ?thesis by blast
next
  case Unmount
  show ?thesis
  proof (cases "pollingRef w")
    case None
    with st Unmount mem show ?thesis
      by (auto simp: unmount_def clearPolling_None emitted_def split: if_splits)
  next
    case (Some tm)
    with st Unmount mem show ?thesis
      by (auto simp: unmount_def clearPolling_Some[OF inv Some] emitted_def split: if_splits)
  qed
qed (use st mem in \<open>auto simp: handler_defs Let_def emitted_def
        split: if_splits option.splits\<close>)


subsection \<open>At most one timer (C9)\<close>

text \<open>
  C9. In every reachable state at most one interval timer of the page is set, and it is the
  one whose handle \<^verbatim>\<open>pollingRef.current\<close> holds. \<^verbatim>\<open>pollForDataAndStatus\<close>, called
  in a reachable state, first clears the timer that is set (if there is one), then issues
  the first \<^verbatim>\<open>GET /getdata\<close>, then sets the new timer with a period of 15000 ms, and
  leaves exactly the new timer set.
\<close>

theorem single_timer:
  assumes "reachable h w"
  shows "length (intervals w) \<le> 1 \<and>
         map fst (intervals w) = (case pollingRef w of None \<Rightarrow> [] | Some tm \<Rightarrow> [tm]) \<and>
         intervals (pollForDataAndStatus fid ts w) = [(nextHandle w, fid, ts)] \<and>
         pollingRef (pollForDataAndStatus fid ts w) = Some (nextHandle w) \<and>
         trace (pollForDataAndStatus fid ts w) =
           trace w @ (case pollingRef w of None \<Rightarrow> [] | Some tm \<Rightarrow> [ClearInterval tm])
             @ [Fetch ''GET'' Getdata fid None, SetInterval (nextHandle w) 15000]"
proof -
  have inv: "timerInv w" using assms by (rule timerInv_reachable)
  then have m: "map fst (intervals w) = (case pollingRef w of None \<Rightarrow> [] | Some tm \<Rightarrow> [tm])"
    by (simp add: timerInv_def timerOk_def)
  then have "length (map fst (intervals w)) \<le> 1"
    by (simp split: option.splits)
  then have l: "length (intervals w) \<le> 1" by simp
  from l m show ?thesis
    by (simp add: pollForDataAndStatus_eq[OF inv])
qed

theorem single_timer_witness:
  "\<exists>w. run sampleHost readyWorld
          [ClickSubmit, Respond 0 (jsonReply JNull), Advance 60000,
           ClickSubmit, Respond 1 (jsonReply JNull)] = Some w \<and>
        reachable sampleHost w \<and> length (intervals w) \<le> 1 \<and>
        intervals w = [(2, ''ACME_Tonic1'', Some (Fin 1000))] \<and> pollingRef w = Some 2 \<and>
        filter (\<lambda>e. e = ClearInterval 1) (trace w) = [ClearInterval 1]"
proof -
  obtain w where w: "run sampleHost readyWorld
          [ClickSubmit, Respond 0 (jsonReply JNull), Advance 60000,
           ClickSubmit, Respond 1 (jsonReply JNull)] = Some w"
    by (simp add: run_simps)
  have r: "reachable sampleHost w"
    by (rule reachable_run[OF reachable_readyWorld w])
  from w have "intervals w = [(2, ''ACME_Tonic1'', Some (Fin 1000))] \<and> pollingRef w = Some 2 \<and>
        filter (\<lambda>e. e = ClearInterval 1) (trace w) = [ClearInterval 1]"
    by (auto simp add: run_simps)
  with single_timer[OF r] w r show ?thesis by blast
qed

subsection \<open>When polling stops (C4)\<close>

lemma no_timer_no_ref: "timerInv w \<Longrightarrow> intervals w = [] \<Longrightarrow> pollingRef w = None"
  by (cases "pollingRef w") (simp_all add: timerInv_def timerOk_def)

lemma old_timer_below: "timerInv w \<Longrightarrow> tm \<in> fst ` set (intervals w) \<Longrightarrow> tm < nextHandle w"
proof -
  assume inv: "timerInv w" and mem: "tm \<in> fst ` set (intervals w)"
  from mem have "tm \<in> set (map fst (intervals w))" by simp
  with inv show ?thesis
    by (cases "pollingRef w") (simp_all add: timerInv_def timerOk_def)
qed

text \<open>
  C4, as the code has it. In a step of the page from a reachable state, a timer that was set
  is no longer set afterwards if and only if a timer was set and the step is the completion
  of a status poll that returned status 0, the teardown of the view, or the successful
  completion of the POST of a new submission (which sets a new timer). The status of a
  body is its \<^verbatim>\<open>status\<close> field, or its \<^verbatim>\<open>status_code\<close> field when \<^verbatim>\<open>status\<close> is
  \<^verbatim>\<open>null\<close> or absent, or the body itself when the body is falsy; it is 0 when it is not
  \<^verbatim>\<open>null\<close> and \<^verbatim>\<open>Number\<close> of it is 0. After a status poll that returned status 0 no
  timer is set and \<^verbatim>\<open>pollingRef.current\<close> is \<^verbatim>\<open>null\<close>, so no timer can fire: while
  no timer is set, a \<^verbatim>\<open>GET /getdata\<close> is issued only by a new successful submission.
  A \<^verbatim>\<open>GET /picron\<close> is issued only by a polling cycle whose \<^verbatim>\<open>GET /getdata\<close> has
  just completed.
\<close>

theorem polling_stops:
  assumes "reachable h w" and "step h w ev = Some w'"
  shows "((\<exists>tm \<in> fst ` set (intervals w). tm \<notin> fst ` set (intervals w')) \<longleftrightarrow>
            intervals w \<noteq> [] \<and> (stopsPolling h w ev \<or> ev = Unmount \<or> restartsPolling w ev)) \<and>
         (stopsPolling h w ev \<longrightarrow>
            intervals w' = [] \<and> pollingRef w' = None \<and> step h w' (IntervalFire tm') = None) \<and>
         (intervals w = [] \<and> Fetch ''GET'' Getdata fid None \<in> set (emitted w w') \<longrightarrow>
            restartsPolling w ev) \<and>
         (Fetch ''GET'' Picron fid None \<in> set (emitted w w') \<longrightarrow>
            (\<exists>k ts out. ev = Respond k out \<and> k < length (inflight w) \<and>
               inflight w ! k = AwaitGetdata fid ts))"
proof -
  have inv: "timerInv w" using assms(1) by (rule timerInv_reachable)
  have inv': "timerInv w'" using inv assms(2) by (rule timerInv_step)
  note iv = step_intervals[OF inv assms(2)]
  have a: "(\<exists>tm \<in> fst ` set (intervals w). tm \<notin> fst ` set (intervals w')) \<longleftrightarrow>
            intervals w \<noteq> [] \<and> (stopsPolling h w ev \<or> ev = Unmount \<or> restartsPolling w ev)"
  proof (cases "stopsPolling h w ev \<or> ev = Unmount")
    case True
    with iv have "intervals w' = []" by simp
    with True show ?thesis by (cases "intervals w") auto
  next
    case False
    show ?thesis
    proof (cases "restartsPolling w ev")
      case True
      then obtain k out fid' ts' where ev: "ev = Respond k out"
          and t: "inflight w ! k = AwaitSubmit fid' ts'"
        by (auto simp: restartsPolling_def split: event.splits task.splits)
      with iv False True have new: "intervals w' = [(nextHandle w, fid', ts')]"
        by simp
      show ?thesis
      proof (cases "intervals w")
        case Nil
        then show ?thesis by simp
      next
        case (Cons p ps)
        then have "fst p \<in> fst ` set (intervals w)" by simp
        from old_timer_below[OF inv this] have "fst p \<noteq> nextHandle w" by simp
        with Cons new True show ?thesis by auto
      qed
    next
      case nr: False
      with iv False have "intervals w' = intervals w" by simp
      with False nr show ?thesis by simp
    qed
  qed
  have b: "stopsPolling h w ev \<longrightarrow>
            intervals w' = [] \<and> pollingRef w' = None \<and> step h w' (IntervalFire tm') = None"
  proof
    assume "stopsPolling h w ev"
    with iv have e: "intervals w' = []" by simp
    from no_timer_no_ref[OF inv' e] e
    show "intervals w' = [] \<and> pollingRef w' = None \<and> step h w' (IntervalFire tm') = None"
      by simp
  qed
  have c: "intervals w = [] \<and> Fetch ''GET'' Getdata fid None \<in> set (emitted w w') \<longrightarrow>
            restartsPolling w ev"
  proof
    assume h: "intervals w = [] \<and> Fetch ''GET'' Getdata fid None \<in> set (emitted w w')"
    with step_getdata_origin[OF inv assms(2), of fid]
    obtain k ts out where ev: "ev = Respond k out" and "inflight w ! k = AwaitSubmit fid ts"
        and "succeeded out"
      by auto
    moreover from assms(2) ev have "k < length (inflight w)"
      by (simp split: if_splits)
    ultimately show "restartsPolling w ev"
      by (simp add: restartsPolling_def)
  qed
  have d: "Fetch ''GET'' Picron fid None \<in> set (emitted w w') \<longrightarrow>
            (\<exists>k ts out. ev = Respond k out \<and> k < length (inflight w) \<and>
               inflight w ! k = AwaitGetdata fid ts)"
    using step_picron_origin[OF inv assms(2)] by blast
  from a b c d show ?thesis by blast
qed

theorem polling_stops_witness:
  "\<exists>w w'. run sampleHost readyWorld
             [ClickSubmit, Respond 0 (jsonReply JNull), Respond 0 (jsonReply (JArr []))] = Some w \<and>
           step sampleHost w (Respond 0 (jsonReply (JObj [(''status'', JNum (Fin 0))]))) = Some w' \<and>
           reachable sampleHost w \<and>
           stopsPolling sampleHost w (Respond 0 (jsonReply (JObj [(''status'', JNum (Fin 0))]))) \<and>
           intervals w = [(1, ''ACME_Tonic1'', None)] \<and>
           intervals w' = [] \<and> pollingRef w' = None \<and>
           step sampleHost w' (IntervalFire 1) = None"
proof -
  obtain w where w: "run sampleHost readyWorld
             [ClickSubmit, Respond 0 (jsonReply JNull), Respond 0 (jsonReply (JArr []))] = Some w"
    by (simp add: run_simps)
  obtain w' where w': "step sampleHost w (Respond 0 (jsonReply (JObj [(''status'', JNum (Fin 0))]))) = Some w'"
    using w by (auto simp add: run_simps)
  have r: "reachable sampleHost w"
    by (rule reachable_run[OF reachable_readyWorld w])
  from w have s: "stopsPolling sampleHost w (Respond 0 (jsonReply (JObj [(''status'', JNum (Fin 0))])))"
    and i: "intervals w = [(1, ''ACME_Tonic1'', None)]"
    by (auto simp add: run_simps)
  from polling_stops[OF r w', of 1] s have "intervals w' = [] \<and> pollingRef w' = None \<and>
           step sampleHost w' (IntervalFire 1) = None"
    by blast
  with w w' r s i show ?thesis by blast
qed

text \<open>
  The sentence of the specification fails when two polling cycles overlap. The first cycle of a
  submission is still waiting for its \<^verbatim>\<open>GET /getdata\<close> when the timer fires and starts
  a second cycle; the second cycle completes and its status poll returns status 0, which
  clears the timer; then the first cycle's \<^verbatim>\<open>GET /getdata\<close> completes and the cycle
  goes on to issue its \<^verbatim>\<open>GET /picron\<close>, after status 0 has been observed.
\<close>

theorem overlapping_cycle_counterexample:
  "map_option (\<lambda>w. drop 5 (trace w))
     (run sampleHost readyWorld
        [ClickSubmit, Respond 0 (jsonReply JNull), IntervalFire 1,
         Respond 1 (jsonReply (JArr [])),
         Respond 1 (jsonReply (JObj [(''status'', JNum (Fin 0))])),
         Respond 0 (jsonReply (JArr []))]) =
   Some [ClearInterval 1, Fetch ''GET'' Picron ''ACME_Tonic1'' None]"
  by (simp add: run_simps)

section \<open>The timestamp filter (C3)\<close>

lemma filterRecords_filter:
  "(\<forall>x\<in>set xs. p x \<noteq> None) \<Longrightarrow>
     filterRecords p xs = Some (filter (\<lambda>x. p x = Some True) xs)"
  by (induction xs) auto

lemma keepRecord_defined: "\<not> nullish e \<Longrightarrow> keepRecord h ts e \<noteq> None"
  by (auto simp: keepRecord_def recordTs_def split: option.splits)

lemma numLt_not_numGe: "numLt p t \<Longrightarrow> \<not> numGe p t"
  by (cases p; cases t) simp_all

lemma keepRecord_cases:
  assumes "numTruthy t" and "recordTs e = Some ts"
  shows "(\<not> truthy ts \<longrightarrow> keepRecord h (Some t) e = Some True) \<and>
         (truthy ts \<and> parseTs h ts = None \<longrightarrow> keepRecord h (Some t) e = Some False) \<and>
         (\<forall>p. truthy ts \<and> parseTs h ts = Some p \<and> numLt p t \<longrightarrow>
              keepRecord h (Some t) e = Some False) \<and>
         (\<forall>p. truthy ts \<and> parseTs h ts = Some p \<and> numGe p t \<longrightarrow>
              keepRecord h (Some t) e = Some True)"
  using assms by (auto simp: keepRecord_def dest: numLt_not_numGe)

lemma predictions_filtered:
  assumes "ok res" and "bodyJson res = Inr body" and "\<forall>e\<in>set (asArray body). \<not> nullish e"
  shows "predictionTimeout_resume h t (Inr res) w =
           w\<lparr>predictions := filter (\<lambda>e. keepRecord h (Some t) e = Some True) (asArray body),
             predictionMessage := ''Prediction fetched.'',
             isRequestingPrediction := False\<rparr>"
proof -
  from assms(3) have "\<forall>e\<in>set (asArray body). keepRecord h (Some t) e \<noteq> None"
    by (simp add: keepRecord_defined)
  then have "filterRecords (keepRecord h (Some t)) (asArray body) =
      Some (filter (\<lambda>e. keepRecord h (Some t) e = Some True) (asArray body))"
    by (rule filterRecords_filter)
  with assms(1,2) show ?thesis
    by (simp add: predictionTimeout_resume_def)
qed

lemma getdata_entries_ok:
  assumes "ok res" and "bodyJson res = Inr gd"
    and "filterRecords (keepRecord h ts) (asArray gd) = Some kept"
  shows "collectedEntries (singleIteration_getdata h fid ts (Inr res) w) =
           collectedEntries w @ kept"
  using assms by (simp add: singleIteration_getdata_def emit_def Let_def)

lemma getdata_entries:
  "\<exists>suffix. collectedEntries (singleIteration_getdata h fid ts out w) =
             collectedEntries w @ suffix"
  by (auto simp: singleIteration_getdata_def emit_def Let_def split: sum.splits option.splits)

text \<open>
  C3, as the code has it, for prediction fetching. \<^verbatim>\<open>requestPredictionMode\<close>, called
  when the clock is not 0, records \<^verbatim>\<open>Date.now()\<close> as the start timestamp of the
  session and hands the same value to its delayed fetch. Take a response to that fetch
  that succeeded, whose body is JSON and holds no \<^verbatim>\<open>null\<close> record. The predictions
  stored are exactly the records the filter keeps, in the order of the response. For a
  record of the response: when none of its four timestamp fields is truthy it is kept;
  when its timestamp parses (by \<^verbatim>\<open>Date.parse\<close>, else by \<^verbatim>\<open>Number\<close>) to an instant
  strictly less than the start timestamp it is dropped, and when it parses to an instant
  that is at least the start timestamp it is kept; when its timestamp cannot be parsed it
  is dropped.
\<close>

theorem timestamp_filter:
  assumes "factoryMedicineId w0 \<noteq> []" and "clock w0 \<noteq> 0"
    and "ok res" and "bodyJson res = Inr body"
    and "\<forall>e\<in>set (asArray body). \<not> nullish e"
  shows "predictionStartTs (requestPredictionMode w0) = Some (dateNow w0) \<and>
         inflight (requestPredictionMode w0) =
           inflight w0 @ [AwaitPredictPost (factoryMedicineId w0) (dateNow w0)] \<and>
         predictions (predictionTimeout_resume h (dateNow w0) (Inr res) w) =
           filter (\<lambda>e. keepRecord h (Some (dateNow w0)) e = Some True) (asArray body) \<and>
         (\<forall>e\<in>set (asArray body). \<forall>ts. recordTs e = Some ts \<longrightarrow>
            (\<not> truthy ts \<longrightarrow> keepRecord h (Some (dateNow w0)) e = Some True) \<and>
            (truthy ts \<and> parseTs h ts = None \<longrightarrow>
               keepRecord h (Some (dateNow w0)) e = Some False) \<and>
            (\<forall>p. truthy ts \<and> parseTs h ts = Some p \<and> numLt p (dateNow w0) \<longrightarrow>
                 keepRecord h (Some (dateNow w0)) e = Some False) \<and>
            (\<forall>p. truthy ts \<and> parseTs h ts = Some p \<and> numGe p (dateNow w0) \<longrightarrow>
                 keepRecord h (Some (dateNow w0)) e = Some True))"
proof -
  have t: "numTruthy (dateNow w0)"
    using assms(2) by (simp add: dateNow_def)
  have s: "predictionStartTs (requestPredictionMode w0) = Some (dateNow w0) \<and>
         inflight (requestPredictionMode w0) =
           inflight w0 @ [AwaitPredictPost (factoryMedicineId w0) (dateNow w0)]"
    using assms(1) by (simp add: requestPredictionMode_def emit_def)
  have a: "predictions (predictionTimeout_resume h (dateNow w0) (Inr res) w) =
           filter (\<lambda>e. keepRecord h (Some (dateNow w0)) e = Some True) (asArray body)"
    by (simp add: predictions_filtered[OF assms(3,4,5)])
  from s a keepRecord_cases[OF t] show ?thesis
    by blast
qed

theorem timestamp_filter_witness:
  "factoryMedicineId readyWorld \<noteq> [] \<and> clock readyWorld \<noteq> 0 \<and>
   dateNow readyWorld = Fin 1000 \<and>
   predictions (predictionTimeout_resume sampleHost (dateNow readyWorld)
      (jsonReply (JArr
        [JObj [(''timestamp'', JNum (Fin 500))],
         JObj [(''dilution'', JNum (Fin 50))],
         JObj [(''time'', JStr ''garbage'')],
         JObj [(''createdAt'', JStr ''2024-01-01T00:00:00.000Z'')]])) readyWorld) =
     [JObj [(''dilution'', JNum (Fin 50))],
      JObj [(''createdAt'', JStr ''2024-01-01T00:00:00.000Z'')]] \<and>
   map_option predictions
     (run sampleHost readyWorld
        [ClickPredict, Respond 0 (jsonReply JNull), Advance 15000, TimeoutFire 0,
         Respond 0 (jsonReply (JArr
           [JObj [(''timestamp'', JNum (Fin 500))],
            JObj [(''dilution'', JNum (Fin 50))],
            JObj [(''time'', JStr ''garbage'')],
            JObj [(''createdAt'', JStr ''2024-01-01T00:00:00.000Z'')]]))]) =
     Some [JObj [(''dilution'', JNum (Fin 50))],
           JObj [(''createdAt'', JStr ''2024-01-01T00:00:00.000Z'')]]"
proof -
  let ?body = "JArr
        [JObj [(''timestamp'', JNum (Fin 500))],
         JObj [(''dilution'', JNum (Fin 50))],
         JObj [(''time'', JStr ''garbage'')],
         JObj [(''createdAt'', JStr ''2024-01-01T00:00:00.000Z'')]]"
  let ?res = "\<lparr>status = 200, bodyText = Inr [], bodyJson = Inr ?body\<rparr>"
  have g: "factoryMedicineId readyWorld \<noteq> []" and c: "clock readyWorld \<noteq> 0"
    and d: "dateNow readyWorld = Fin 1000"
    by (simp_all add: readyWorld_def mount_def mountEffect_def syncIdEffect_def orEmpty_def
          initialWorld_def Let_def dateNow_def)
  have o: "ok ?res" by (simp add: ok_def)
  have b: "bodyJson ?res = Inr ?body" by simp
  have n: "\<forall>e\<in>set (asArray ?body). \<not> nullish e" by (simp add: nullish_def)
  from timestamp_filter[OF g c o b n, of sampleHost readyWorld]
  have "predictions (predictionTimeout_resume sampleHost (dateNow readyWorld) (Inr ?res) readyWorld) =
     [JObj [(''dilution'', JNum (Fin 50))],
      JObj [(''createdAt'', JStr ''2024-01-01T00:00:00.000Z'')]]"
    by (simp add: d keepRecord_def recordTs_def parseTs_def jsOr_def nullish_def sampleHost_def)
  moreover have "map_option predictions
     (run sampleHost readyWorld
        [ClickPredict, Respond 0 (jsonReply JNull), Advance 15000, TimeoutFire 0,
         Respond 0 (jsonReply ?body)]) =
     Some [JObj [(''dilution'', JNum (Fin 50))],
           JObj [(''createdAt'', JStr ''2024-01-01T00:00:00.000Z'')]]"
    by (simp add: run_simps)
  ultimately show ?thesis using g c d
    by (simp add: jsonReply_def)
qed

text \<open>
  The sentence of the specification fails for a timestamp that cannot be parsed: the callback returns
  \<^verbatim>\<open>parsed && parsed >= startTs\<close>, which is \<^verbatim>\<open>null\<close> when \<^verbatim>\<open>parsed\<close> is \<^verbatim>\<open>null\<close>,
  so the record is dropped, not retained.
\<close>

theorem unparseable_timestamp_counterexample:
  "parseTs sampleHost (JStr ''garbage'') = None \<and>
   map_option (\<lambda>w. (predictionStartTs w, predictions w, predictionMessage w))
     (run sampleHost readyWorld
        [ClickPredict, Respond 0 (jsonReply JNull), Advance 15000, TimeoutFire 0,
         Respond 0 (jsonReply (JArr [JObj [(''timestamp'', JStr ''garbage'')]]))]) =
   Some (Some (Fin 1000), [], ''Prediction fetched.'')"
  by (simp add: run_simps)

text \<open>
  The polling cycles of the data collection use the same callback, with the start timestamp
  their closure holds: \<^verbatim>\<open>singleIteration\<close> reads \<^verbatim>\<open>collectionStartTs\<close> of the render in which
  \<^verbatim>\<open>submitCollection\<close> was called, that is the value before
  \<^verbatim>\<open>setCollectionStartTs(Date.now())\<close>. On the first submission this is \<^verbatim>\<open>null\<close> and
  the filter keeps every record, also one whose timestamp lies before the submission.
\<close>

lemma first_submission_filters_nothing:
  "map_option (\<lambda>w. (collectionStartTs w, collectedEntries w))
     (run sampleHost readyWorld
        [Advance 1704067300000, ClickSubmit, Respond 0 (jsonReply JNull),
         Respond 0 (jsonReply (JArr [JObj [(''timestamp'', JStr ''2024-01-01T00:00:00.000Z'')]]))]) =
   Some (Some (Fin 1704067301000),
         [JObj [(''timestamp'', JStr ''2024-01-01T00:00:00.000Z'')]])"
  by (simp add: run_simps)

section \<open>Accumulation of the collected entries (C5)\<close>

lemma status_entries:
  "collectedEntries (singleIteration_status h out w) = collectedEntries w"
  by (auto simp: singleIteration_status_def clearPolling_def emit_def
        split: sum.splits option.splits)

lemma resume_entries:
  "\<exists>suffix. collectedEntries (resume h t out w) = collectedEntries w @ suffix"
proof (cases t)
  case AwaitShell
  then show ?thesis
    by (auto simp: fetchShellScript_resume_def fetchShellScript_catch_def emit_def
          split: sum.splits)
next
  case (AwaitSubmit fid ts)
  then show ?thesis by (simp add: submitCollection_resume_frame)
next
  case (AwaitGetdata fid ts)
  then show ?thesis by (simp add: getdata_entries)
next
  case AwaitStatus
  then show ?thesis by (simp add: status_entries)
next
  case AwaitTrain
  then show ?thesis
    by (auto simp: startModelTraining_resume_def startModelTraining_catch_def emit_def
          split: sum.splits)
next
  case (AwaitPredictPost fid t)
  then show ?thesis
    by (auto simp: requestPredictionMode_resume_def requestPredictionMode_catch_def emit_def
          split: sum.splits)
next
  case (AwaitPredictGet t)
  then show ?thesis
    by (auto simp: predictionTimeout_resume_def predictionTimeout_catch_def emit_def
          split: sum.splits option.splits)
qed

lemma step_entries:
  assumes "step h w ev = Some w'" and "ev \<noteq> ClickSubmit"
  shows "\<exists>suffix. collectedEntries w' = collectedEntries w @ suffix"
proof (cases ev)
  case (Respond k out)
  with assms(1) have "w' = resume h (inflight w ! k) out (w\<lparr>inflight := dropNth k (inflight w)\<rparr>)"
    by (simp split: if_splits)
  with resume_entries[of h "inflight w ! k" out "w\<lparr>inflight := dropNth k (inflight w)\<rparr>"]
  show ?thesis by simp
next
  case Unmount
  with assms(1) show ?thesis
    by (auto simp: unmount_def clearPolling_def emit_def split: if_splits option.splits)
qed (use assms in \<open>auto simp: handler_defs Let_def split: if_splits option.splits\<close>)

text \<open>
  C5. The rest of a polling cycle after \<^verbatim>\<open>GET /getdata\<close> leaves the collected entries
  as a prefix of the new ones, whatever the outcome of the request; the rest after
  \<^verbatim>\<open>GET /picron\<close> does not change them. When the request succeeded and the filter
  returned \<open>kept\<close>, the new entries are the old ones followed by \<open>kept\<close>. So after two
  successful cycles in a row that start from no entries, the entries are the records kept
  by the first cycle followed by those kept by the second, and their number is the sum of
  the two counts. More generally every step of the page other than a new submission leaves
  the collected entries as a prefix of the new ones.
\<close>

theorem entries_append_only:
  "(\<exists>suffix. collectedEntries (singleIteration_getdata h fid ts out w) =
              collectedEntries w @ suffix) \<and>
   collectedEntries (singleIteration_status h out w) = collectedEntries w \<and>
   (ok res \<and> bodyJson res = Inr gd \<and>
    filterRecords (keepRecord h ts) (asArray gd) = Some kept \<longrightarrow>
      collectedEntries (singleIteration_getdata h fid ts (Inr res) w) =
        collectedEntries w @ kept) \<and>
   (ok r1 \<and> bodyJson r1 = Inr g1 \<and> filterRecords (keepRecord h ts) (asArray g1) = Some k1 \<and>
    ok r2 \<and> bodyJson r2 = Inr g2 \<and> filterRecords (keepRecord h ts) (asArray g2) = Some k2 \<and>
    collectedEntries w = [] \<longrightarrow>
      collectedEntries
        (singleIteration_getdata h fid ts (Inr r2)
           (singleIteration_status h s1 (singleIteration_getdata h fid ts (Inr r1) w))) =
        k1 @ k2 \<and>
      length (collectedEntries
        (singleIteration_getdata h fid ts (Inr r2)
           (singleIteration_status h s1 (singleIteration_getdata h fid ts (Inr r1) w)))) =
        length k1 + length k2) \<and>
   (step h w ev = Some w' \<and> ev \<noteq> ClickSubmit \<longrightarrow>
      (\<exists>suffix. collectedEntries w' = collectedEntries w @ suffix))"
proof -
  have c: "ok res \<and> bodyJson res = Inr gd \<and>
    filterRecords (keepRecord h ts) (asArray gd) = Some kept \<longrightarrow>
      collectedEntries (singleIteration_getdata h fid ts (Inr res) w) =
        collectedEntries w @ kept"
    by (simp add: getdata_entries_ok)
  have d: "ok r1 \<and> bodyJson r1 = Inr g1 \<and> filterRecords (keepRecord h ts) (asArray g1) = Some k1 \<and>
    ok r2 \<and> bodyJson r2 = Inr g2 \<and> filterRecords (keepRecord h ts) (asArray g2) = Some k2 \<and>
    collectedEntries w = [] \<longrightarrow>
      collectedEntries
        (singleIteration_getdata h fid ts (Inr r2)
           (singleIteration_status h s1 (singleIteration_getdata h fid ts (Inr r1) w))) =
        k1 @ k2 \<and>
      length (collectedEntries
        (singleIteration_getdata h fid ts (Inr r2)
           (singleIteration_status h s1 (singleIteration_getdata h fid ts (Inr r1) w)))) =
        length k1 + length k2"
    by (simp add: getdata_entries_ok status_entries)
  have e: "step h w ev = Some w' \<and> ev \<noteq> ClickSubmit \<longrightarrow>
      (\<exists>suffix. collectedEntries w' = collectedEntries w @ suffix)"
    using step_entries by blast
  from getdata_entries[of h fid ts out w] status_entries[of h out w] c d e show ?thesis
    by blast
qed

theorem entries_append_only_witness:
  "map_option collectedEntries
     (run sampleHost readyWorld
        [ClickSubmit, Respond 0 (jsonReply JNull),
         Respond 0 (jsonReply (JObj [(''dilution'', JNum (Fin 50))])),
         Respond 0 (jsonReply (JObj [(''status'', JNum (Fin 1))])),
         IntervalFire 1,
         Respond 0 (jsonReply (JArr [JObj [(''dilution'', JNum (Fin 51))],
                                     JObj [(''dilution'', JNum (Fin 52))]]))]) =
   Some [JObj [(''dilution'', JNum (Fin 50))], JObj [(''dilution'', JNum (Fin 51))],
         JObj [(''dilution'', JNum (Fin 52))]] \<and>
   length (collectedEntries
        (singleIteration_getdata sampleHost ''ACME_Tonic1'' None
           (jsonReply (JArr [JObj [(''dilution'', JNum (Fin 51))],
                             JObj [(''dilution'', JNum (Fin 52))]]))
           (singleIteration_status sampleHost (jsonReply (JObj [(''status'', JNum (Fin 1))]))
              (singleIteration_getdata sampleHost ''ACME_Tonic1'' None
                 (jsonReply (JObj [(''dilution'', JNum (Fin 50))])) readyWorld)))) = 1 + 2"
proof -
  let ?g1 = "JObj [(''dilution'', JNum (Fin 50))]"
  let ?g2 = "JArr [JObj [(''dilution'', JNum (Fin 51))], JObj [(''dilution'', JNum (Fin 52))]]"
  let ?r1 = "\<lparr>status = 200, bodyText = Inr [], bodyJson = Inr ?g1\<rparr>"
  let ?r2 = "\<lparr>status = 200, bodyText = Inr [], bodyJson = Inr ?g2\<rparr>"
  have o: "ok ?r1" "ok ?r2" by (simp_all add: ok_def)
  have f1: "filterRecords (keepRecord sampleHost None) (asArray ?g1) = Some [?g1]"
    by (simp add: keepRecord_def)
  have f2: "filterRecords (keepRecord sampleHost None) (asArray ?g2) = Some (asArray ?g2)"
    by (simp add: keepRecord_def)
  have e: "collectedEntries readyWorld = []"
    by (simp add: run_simps)
  from entries_append_only[where h = sampleHost and ts = None and ?r1.0 = ?r1 and ?r2.0 = ?r2
      and ?g1.0 = ?g1 and ?g2.0 = ?g2 and ?k1.0 = "[?g1]" and ?k2.0 = "asArray ?g2"
      and w = readyWorld and fid = "''ACME_Tonic1''"
      and ?s1.0 = "jsonReply (JObj [(''status'', JNum (Fin 1))])"] o f1 f2 e
  have "length (collectedEntries
        (singleIteration_getdata sampleHost ''ACME_Tonic1'' None (Inr ?r2)
           (singleIteration_status sampleHost (jsonReply (JObj [(''status'', JNum (Fin 1))]))
              (singleIteration_getdata sampleHost ''ACME_Tonic1'' None (Inr ?r1) readyWorld)))) = 1 + 2"
    by simp
  moreover have "map_option collectedEntries
     (run sampleHost readyWorld
        [ClickSubmit, Respond 0 (jsonReply JNull),
         Respond 0 (jsonReply ?g1),
         Respond 0 (jsonReply (JObj [(''status'', JNum (Fin 1))])),
         IntervalFire 1,
         Respond 0 (jsonReply ?g2)]) =
   Some [JObj [(''dilution'', JNum (Fin 50))], JObj [(''dilution'', JNum (Fin 51))],
         JObj [(''dilution'', JNum (Fin 52))]]"
    by (simp add: run_simps)
  ultimately show ?thesis
    by (simp add: jsonReply_def)
qed

section \<open>The prediction phase (C6)\<close>

lemma length_dropNth: "k < length xs \<Longrightarrow> Suc (length (dropNth k xs)) = length xs"
  by (simp add: dropNth_def)

lemma predictInv_resume:
  assumes inv: "predictInv w"
  shows "predictInv (resume h t out w)"
proof (cases t)
  case AwaitShell
  with inv show ?thesis
    by (auto simp: fetchShellScript_resume_def fetchShellScript_catch_def emit_def
          predictInv_def predictOk_def split: sum.splits)
next
  case (AwaitSubmit fid ts)
  with inv show ?thesis
    by (auto simp: submitCollection_resume_def submitCollection_catch_def emit_def
          pollForDataAndStatus_def clearPolling_def singleIteration_def Let_def
          predictInv_def predictOk_def split: sum.splits option.splits)
next
  case (AwaitGetdata fid ts)
  with inv show ?thesis
    by (auto simp: singleIteration_getdata_def emit_def Let_def
          predictInv_def predictOk_def split: sum.splits option.splits)
next
  case AwaitStatus
  with inv show ?thesis
    by (auto simp: singleIteration_status_def emit_def clearPolling_def
          predictInv_def predictOk_def split: sum.splits option.splits)
next
  case AwaitTrain
  with inv show ?thesis
    by (auto simp: startModelTraining_resume_def startModelTraining_catch_def emit_def
          predictInv_def predictOk_def split: sum.splits)
next
  case (AwaitPredictPost fid t)
  with inv show ?thesis
    by (auto simp: requestPredictionMode_resume_def requestPredictionMode_catch_def emit_def
          predictInv_def predictOk_def split: sum.splits)
next
  case (AwaitPredictGet t)
  with inv show ?thesis
    by (auto simp: predictionTimeout_resume_def predictionTimeout_catch_def emit_def
          predictInv_def predictOk_def split: sum.splits option.splits)
qed

lemma predictInv_step:
  assumes inv: "predictInv w" and st: "step h w ev = Some w'"
  shows "predictInv w'"
proof (cases ev)
  case (Respond k out)
  have "predictInv (w\<lparr>inflight := dropNth k (inflight w)\<rparr>)"
    using inv by (simp add: predictInv_def)
  with st Respond show ?thesis
    by (auto simp: predictInv_resume split: if_splits)
next
  case (TimeoutFire k)
  with st have k: "k < length (timeouts w)"
    and w': "w' = predictionTimeout (fst (snd (timeouts w ! k))) (snd (snd (timeouts w ! k)))
                   (w\<lparr>timeouts := dropNth k (timeouts w)\<rparr>)"
    by (simp_all split: if_splits)
  from inv length_dropNth[OF k] show ?thesis
    by (simp add: w' predictionTimeout_def emit_def predictInv_def predictOk_def)
qed (use assms in \<open>auto simp: handler_defs Let_def predictInv_def predictOk_def
        split: if_splits option.splits\<close>)

lemma predictInv_reachable: "reachable h w \<Longrightarrow> predictInv w"
proof (induction rule: reachable.induct)
  case (reach_init c)
  show ?case by (simp add: predictInv_def predictOk_def initialWorld_def)
next
  case (reach_step w ev w')
  then show ?case by (blast intro: predictInv_step)
qed

lemma requestPredictionMode_accepted:
  "factoryMedicineId w \<noteq> [] \<Longrightarrow>
     requestPredictionMode w =
       w\<lparr>trace := trace w @ [Fetch ''POST'' Picron (factoryMedicineId w)
                                (Some (JObj (predictionPayload w)))],
         isRequestingPrediction := True, predictions := [], predictionMessage := [],
         predictionStartTs := Some (dateNow w),
         inflight := inflight w @ [AwaitPredictPost (factoryMedicineId w) (dateNow w)]\<rparr>"
  by (simp add: requestPredictionMode_def emit_def)

lemma requestPredictionMode_resume_ok:
  "succeeded out \<Longrightarrow>
     requestPredictionMode_resume fid t out w =
       w\<lparr>trace := trace w @ [SetTimeout 15000],
         timeouts := timeouts w @ [(clock w + 15000, fid, t)]\<rparr>"
  by (cases out) (simp_all add: succeeded_def requestPredictionMode_resume_def emit_def)

lemma requestPredictionMode_resume_failed:
  assumes "\<not> succeeded out"
  shows "\<exists>err. requestPredictionMode_resume fid t out w =
        w\<lparr>trace := trace w @ [ConsoleError err],
          predictionMessage := ''Error requesting prediction mode: '' @ errText err,
          isRequestingPrediction := False\<rparr>"
proof -
  have c: "\<And>err. requestPredictionMode_catch err w =
        w\<lparr>trace := trace w @ [ConsoleError err],
          predictionMessage := ''Error requesting prediction mode: '' @ errText err,
          isRequestingPrediction := False\<rparr>"
    by (simp add: requestPredictionMode_catch_def emit_def)
  have "\<exists>err. requestPredictionMode_resume fid t out w = requestPredictionMode_catch err w"
  proof (cases out)
    case (Inl err)
    then show ?thesis by (auto simp: requestPredictionMode_resume_def)
  next
    case (Inr res)
    with assms have "\<not> ok res" by (simp add: succeeded_def)
    with Inr show ?thesis by (auto simp: requestPredictionMode_resume_def)
  qed
  then obtain err where "requestPredictionMode_resume fid t out w = requestPredictionMode_catch err w"
    by blast
  with c[of err] show ?thesis by metis
qed

lemma timeout_fire:
  assumes "step h w (TimeoutFire k) = Some w'"
  shows "k < length (timeouts w) \<and> fst (timeouts w ! k) \<le> clock w \<and>
         w' = w\<lparr>timeouts := dropNth k (timeouts w),
                trace := trace w @ [Fetch ''GET'' Predict (fst (snd (timeouts w ! k))) None],
                inflight := inflight w @ [AwaitPredictGet (snd (snd (timeouts w ! k)))]\<rparr>"
  using assms by (auto simp: predictionTimeout_def emit_def split: if_splits)

lemma predictionTimeout_resume_cases:
  "(\<exists>kept. predictionTimeout_resume h t out w =
        w\<lparr>predictions := kept, predictionMessage := ''Prediction fetched.'',
          isRequestingPrediction := False\<rparr> \<and> succeeded out) \<or>
   (\<exists>err. predictionTimeout_resume h t out w = predictionTimeout_catch err w)"
proof (cases out)
  case (Inl err)
  then show ?thesis by (auto simp: predictionTimeout_resume_def)
next
  case (Inr res)
  show ?thesis
  proof (cases "ok res")
    case False
    with Inr show ?thesis by (auto simp: predictionTimeout_resume_def)
  next
    case True
    show ?thesis
    proof (cases "bodyJson res")
      case (Inl err)
      with Inr True show ?thesis by (auto simp: predictionTimeout_resume_def)
    next
      case body: (Inr pred)
      show ?thesis
      proof (cases "filterRecords (keepRecord h (Some t)) (asArray pred)")
        case None
        with Inr True body show ?thesis by (auto simp: predictionTimeout_resume_def)
      next
        case (Some kept)
        with Inr True body have "predictionTimeout_resume h t out w =
            w\<lparr>predictions := kept, predictionMessage := ''Prediction fetched.'',
              isRequestingPrediction := False\<rparr> \<and> succeeded out"
          by (simp add: predictionTimeout_resume_def succeeded_def)
        then show ?thesis by blast
      qed
    qed
  qed
qed

lemma predictionTimeout_resume_failed:
  "\<not> succeeded out \<Longrightarrow>
     \<exists>err. predictionTimeout_resume h t out w = predictionTimeout_catch err w"
  using predictionTimeout_resume_cases[of h t out w] by blast

lemma predictionTimeout_resume_summary:
  "isRequestingPrediction (predictionTimeout_resume h t out w) = False \<and>
   timeouts (predictionTimeout_resume h t out w) = timeouts w \<and>
   intervals (predictionTimeout_resume h t out w) = intervals w \<and>
   inflight (predictionTimeout_resume h t out w) = inflight w \<and>
   (emitted w (predictionTimeout_resume h t out w) = [] \<and>
    predictionMessage (predictionTimeout_resume h t out w) = ''Prediction fetched.'' \<or>
    (\<exists>err. emitted w (predictionTimeout_resume h t out w) = [ConsoleError err] \<and>
       predictionMessage (predictionTimeout_resume h t out w) =
         ''Error fetching prediction: '' @ errText err))"
proof -
  from predictionTimeout_resume_cases[of h t out w] show ?thesis
  proof
    assume "\<exists>kept. predictionTimeout_resume h t out w =
        w\<lparr>predictions := kept, predictionMessage := ''Prediction fetched.'',
          isRequestingPrediction := False\<rparr> \<and> succeeded out"
    then obtain kept where "predictionTimeout_resume h t out w =
        w\<lparr>predictions := kept, predictionMessage := ''Prediction fetched.'',
          isRequestingPrediction := False\<rparr>"
      by blast
    then show ?thesis by (simp add: emitted_def)
  next
    assume "\<exists>err. predictionTimeout_resume h t out w = predictionTimeout_catch err w"
    then obtain err where "predictionTimeout_resume h t out w = predictionTimeout_catch err w"
      by blast
    then show ?thesis by (simp add: emitted_def predictionTimeout_catch_def emit_def)
  qed
qed

text \<open>
  C6. \<^verbatim>\<open>requestPredictionMode\<close>, when its guard passes, issues one POST to
  \<^verbatim>\<open>/picron/{id}\<close> whose payload has \<^verbatim>\<open>status\<close> 2. When the POST succeeds, the rest
  of the function sets one one-shot timer, due 15000 ms after the present time, and does
  nothing else; when the POST fails it sets no timer, stores an error message and clears
  the flag. A one-shot timer fires only when its due time has come, at most once (firing
  removes it), and its callback issues one \<^verbatim>\<open>GET /predict/{id}\<close>. The rest of the
  callback, whatever the outcome of the request, clears the flag, sets no timer and issues
  no request; it stores \<^verbatim>\<open>Prediction fetched.\<close> or, on every failure, an error
  message. In every reachable state the requests \<^verbatim>\<open>GET /predict\<close> issued so far and
  the pending one-shot timers are together as many as the one-shot timers set so far: each
  successful POST leads to exactly one fetch.
\<close>

theorem prediction_single_fetch:
  assumes "reachable h w"
  shows
   "(factoryMedicineId w \<noteq> [] \<longrightarrow>
       requestPredictionMode w =
         w\<lparr>trace := trace w @ [Fetch ''POST'' Picron (factoryMedicineId w)
                                  (Some (JObj (predictionPayload w)))],
           isRequestingPrediction := True, predictions := [], predictionMessage := [],
           predictionStartTs := Some (dateNow w),
           inflight := inflight w @ [AwaitPredictPost (factoryMedicineId w) (dateNow w)]\<rparr>) \<and>
    map_of (predictionPayload w) ''status'' = Some (JNum (Fin 2)) \<and>
    (succeeded out \<longrightarrow>
       requestPredictionMode_resume fid t out w =
         w\<lparr>trace := trace w @ [SetTimeout 15000],
           timeouts := timeouts w @ [(clock w + 15000, fid, t)]\<rparr>) \<and>
    (\<not> succeeded out \<longrightarrow>
       (\<exists>err. requestPredictionMode_resume fid t out w =
          w\<lparr>trace := trace w @ [ConsoleError err],
            predictionMessage := ''Error requesting prediction mode: '' @ errText err,
            isRequestingPrediction := False\<rparr>)) \<and>
    (step h w (TimeoutFire k) = Some w' \<longrightarrow>
       k < length (timeouts w) \<and> fst (timeouts w ! k) \<le> clock w \<and>
       w' = w\<lparr>timeouts := dropNth k (timeouts w),
              trace := trace w @ [Fetch ''GET'' Predict (fst (snd (timeouts w ! k))) None],
              inflight := inflight w @ [AwaitPredictGet (snd (snd (timeouts w ! k)))]\<rparr>) \<and>
    isRequestingPrediction (predictionTimeout_resume h t out w) = False \<and>
    timeouts (predictionTimeout_resume h t out w) = timeouts w \<and>
    intervals (predictionTimeout_resume h t out w) = intervals w \<and>
    inflight (predictionTimeout_resume h t out w) = inflight w \<and>
    (emitted w (predictionTimeout_resume h t out w) = [] \<and>
     predictionMessage (predictionTimeout_resume h t out w) = ''Prediction fetched.'' \<or>
     (\<exists>err. emitted w (predictionTimeout_resume h t out w) = [ConsoleError err] \<and>
        predictionMessage (predictionTimeout_resume h t out w) =
          ''Error fetching prediction: '' @ errText err)) \<and>
    (\<not> succeeded out \<longrightarrow>
       (\<exists>err. predictionMessage (predictionTimeout_resume h t out w) =
          ''Error fetching prediction: '' @ errText err)) \<and>
    length (filter isPredictGet (trace w)) + length (timeouts w) =
      length (filter isSetTimeout (trace w))"
proof -
  have a: "factoryMedicineId w \<noteq> [] \<longrightarrow>
       requestPredictionMode w =
         w\<lparr>trace := trace w @ [Fetch ''POST'' Picron (factoryMedicineId w)
                                  (Some (JObj (predictionPayload w)))],
           isRequestingPrediction := True, predictions := [], predictionMessage := [],
           predictionStartTs := Some (dateNow w),
           inflight := inflight w @ [AwaitPredictPost (factoryMedicineId w) (dateNow w)]\<rparr>"
    using requestPredictionMode_accepted by blast
  have b: "map_of (predictionPayload w) ''status'' = Some (JNum (Fin 2))"
    by (simp add: predictionPayload_def)
  have c: "succeeded out \<longrightarrow>
       requestPredictionMode_resume fid t out w =
         w\<lparr>trace := trace w @ [SetTimeout 15000],
           timeouts := timeouts w @ [(clock w + 15000, fid, t)]\<rparr>"
    using requestPredictionMode_resume_ok by blast
  have d: "\<not> succeeded out \<longrightarrow>
       (\<exists>err. requestPredictionMode_resume fid t out w =
          w\<lparr>trace := trace w @ [ConsoleError err],
            predictionMessage := ''Error requesting prediction mode: '' @ errText err,
            isRequestingPrediction := False\<rparr>)"
    using requestPredictionMode_resume_failed by blast
  have e: "step h w (TimeoutFire k) = Some w' \<longrightarrow>
       k < length (timeouts w) \<and> fst (timeouts w ! k) \<le> clock w \<and>
       w' = w\<lparr>timeouts := dropNth k (timeouts w),
              trace := trace w @ [Fetch ''GET'' Predict (fst (snd (timeouts w ! k))) None],
              inflight := inflight w @ [AwaitPredictGet (snd (snd (timeouts w ! k)))]\<rparr>"
    using timeout_fire by blast
  have f: "\<not> succeeded out \<longrightarrow>
       (\<exists>err. predictionMessage (predictionTimeout_resume h t out w) =
          ''Error fetching prediction: '' @ errText err)"
  proof
    assume "\<not> succeeded out"
    from predictionTimeout_resume_failed[OF this, of h t w]
    obtain err where "predictionTimeout_resume h t out w = predictionTimeout_catch err w"
      by blast
    then have "predictionMessage (predictionTimeout_resume h t out w) =
          ''Error fetching prediction: '' @ errText err"
      by (simp add: predictionTimeout_catch_def emit_def)
    then show "\<exists>err. predictionMessage (predictionTimeout_resume h t out w) =
          ''Error fetching prediction: '' @ errText err" ..
  qed
  have g: "length (filter isPredictGet (trace w)) + length (timeouts w) =
      length (filter isSetTimeout (trace w))"
    using predictInv_reachable[OF assms] by (simp add: predictInv_def predictOk_def)
  from a b c d e f g predictionTimeout_resume_summary[of h t out w] show ?thesis
    by blast
qed

theorem prediction_single_fetch_witness:
  "\<exists>w. run sampleHost readyWorld [ClickPredict, Respond 0 (jsonReply JNull)] = Some w \<and>
        reachable sampleHost w \<and>
        timeouts w = [(16000, ''ACME_Tonic1'', Fin 1000)] \<and>
        step sampleHost w (TimeoutFire 0) = None \<and>
        length (filter isPredictGet (trace w)) + length (timeouts w) =
          length (filter isSetTimeout (trace w)) \<and>
        map_option (\<lambda>v. (emitted w v, predictionMessage v, isRequestingPrediction v, timeouts v))
          (run sampleHost w [Advance 15000, TimeoutFire 0, Respond 0 (httpError 503 ''busy'')]) =
          Some ([Fetch ''GET'' Predict ''ACME_Tonic1'' None,
                 ConsoleError (newError ''Failed to fetch prediction: 503 busy'')],
                ''Error fetching prediction: Failed to fetch prediction: 503 busy'', False, [])"
proof -
  obtain w where w: "run sampleHost readyWorld [ClickPredict, Respond 0 (jsonReply JNull)] = Some w"
    by (simp add: run_simps)
  have r: "reachable sampleHost w"
    by (rule reachable_run[OF reachable_readyWorld w])
  from w have t: "timeouts w = [(16000, ''ACME_Tonic1'', Fin 1000)]"
    and n: "step sampleHost w (TimeoutFire 0) = None"
    by (auto simp add: run_simps)
  from w have e: "map_option (\<lambda>v. (emitted w v, predictionMessage v, isRequestingPrediction v, timeouts v))
          (run sampleHost w [Advance 15000, TimeoutFire 0, Respond 0 (httpError 503 ''busy'')]) =
          Some ([Fetch ''GET'' Predict ''ACME_Tonic1'' None,
                 ConsoleError (newError ''Failed to fetch prediction: 503 busy'')],
                ''Error fetching prediction: Failed to fetch prediction: 503 busy'', False, [])"
    by (auto simp add: run_simps emitted_def errText_def newError_def showNat.simps digitChar_def)
  from prediction_single_fetch[OF r] have "length (filter isPredictGet (trace w)) + length (timeouts w) =
          length (filter isSetTimeout (trace w))"
    by blast
  with w r t n e show ?thesis by blast
qed

end
